theory Spec2Isabelle
  imports Complex_Main "HOL-Library.Word" "HOL-Library.Monad_Syntax" "HOL-Library.Multiset"
begin

unbundle bit_operations_syntax

section \<open>Expression trees (expr.c)\<close>

subsection \<open>Data model\<close>

text \<open>
  The token codes that expr.c switches on.  The numeric values live in the generated
  parse.h; only the identity of a code matters to expr.c, so the codes are an enumeration,
  with \<open>TK_OTHER\<close> standing for every code expr.c never names.
\<close>

datatype TK = TK_ID | TK_COLUMN | TK_DOT | TK_FUNCTION | TK_AGG_FUNCTION | TK_NULL | TK_STRING
  | TK_INTEGER | TK_FLOAT | TK_VARIABLE | TK_UPLUS | TK_UMINUS | TK_PLUS | TK_MINUS | TK_STAR
  | TK_SLASH | TK_AND | TK_OR | TK_LT | TK_LE | TK_GT | TK_GE | TK_NE | TK_EQ | TK_ISNULL
  | TK_NOTNULL | TK_NOT | TK_BITAND | TK_BITOR | TK_BITNOT | TK_LSHIFT | TK_RSHIFT | TK_REM
  | TK_CONCAT | TK_IN | TK_BETWEEN | TK_GLOB | TK_LIKE | TK_AS | TK_SELECT | TK_CASE | TK_RAISE
  | TK_ABORT | TK_OTHER int

text \<open>
  A heap address.  A \<open>char *\<close> is \<open>None\<close> for the null pointer and otherwise the address
  together with the NUL-terminated bytes found there.
\<close>

type_synonym addr = nat
type_synonym cstr = "(addr \<times> string) option"

text \<open>\<open>struct Token\<close>: \<open>z\<close>, \<open>n\<close>, \<open>dyn\<close> (true when \<open>z\<close> is owned, i.e. came from malloc).\<close>

record Token =
  tz :: cstr
  tn :: nat
  dyn :: bool

text \<open>The scalar fields of \<open>struct Expr\<close>.\<close>

record ExprRec =
  op :: TK
  dataType :: int
  iDb :: int
  token :: Token
  span :: Token
  iTable :: int
  iColumn :: int
  iAgg :: int

text \<open>The scalar fields of \<open>struct ExprList_item\<close>.\<close>

record ItemRec =
  zName :: cstr
  sortOrder :: int
  isAgg :: int
  isDone :: int

record Column =
  colName :: string
  colSortOrder :: int

record Table =
  tabName :: "string option"
  aCol :: "Column list"
  iPKey :: int
  tabDb :: int

text \<open>\<open>struct IdList\<close>: its own allocation, the array \<open>a\<close> and the \<open>(zName, idx)\<close> entries.\<close>

record IdList =
  idAddr :: addr
  idAlloc :: int
  idA :: "addr option"
  idItems :: "(cstr \<times> int) list"

text \<open>The non-recursive fields of \<open>struct SrcList_item\<close> and of \<open>struct Select\<close>.\<close>

record SrcItemRec =
  zDatabase :: cstr
  srcName :: cstr
  zAlias :: cstr
  pTab :: "Table option"
  jointype :: int
  iCursor :: int
  pUsing :: "IdList option"

record SelectRec =
  selOp :: int
  isDistinct :: int
  nLimit :: int
  nOffset :: int
  iLimit :: int
  iOffset :: int
  zSelect :: cstr

text \<open>
  Pointers to the tree structures.  Each type has a constructor for the null pointer; the
  other constructor carries the address of the allocation, the scalar fields and the
  owned children, in the order of the C declarations:
  \<^item> \<open>Expr a r pLeft pRight pList pSelect\<close>;
  \<^item> \<open>ExprList a nAlloc arr items\<close>, with \<open>arr\<close> the address of the array \<open>a[]\<close>
    and \<open>nExpr\<close> the number of items;
  \<^item> \<open>Select a r pEList pSrc pWhere pGroupBy pHaving pOrderBy pPrior\<close>;
  \<^item> \<open>SrcList a nAlloc items\<close> (the items are stored inline), an item being
    \<open>SrcCons r pSelect pOn rest\<close>.
\<close>

datatype Expr = NullExpr | Expr addr ExprRec Expr Expr ExprList Select
and ExprList = NullExprList | ExprList addr int "addr option" ExprItems
and ExprItems = ItemNil | ItemCons ItemRec Expr ExprItems
and Select = NullSelect | Select addr SelectRec ExprList SrcList Expr ExprList Expr ExprList Select
and SrcList = NullSrcList | SrcList addr int SrcItems
and SrcItems = SrcNil | SrcCons SrcItemRec Select Expr SrcItems

subsection \<open>sqlite3ExprIsInteger\<close>

text \<open>
  C's \<open>isdigit\<close> and \<open>atoi\<close>.  \<open>atoi\<close> skips white space, reads an optional sign and the
  decimal digits that follow, and converts as \<open>(int)strtol(s, 0, 10)\<close> does on the LP64
  targets: the number saturates at the range of \<open>long\<close> and is then truncated to 32 bits.
\<close>

definition isdigit :: "char \<Rightarrow> bool" where
  "isdigit c = (48 \<le> (of_char c :: nat) \<and> (of_char c :: nat) \<le> 57)"

definition isspace :: "char \<Rightarrow> bool" where
  "isspace c = ((of_char c :: nat) = 32 \<or> (9 \<le> (of_char c :: nat) \<and> (of_char c :: nat) \<le> 13))"

fun atoi_digits :: "int \<Rightarrow> string \<Rightarrow> int" where
  "atoi_digits acc [] = acc"
| "atoi_digits acc (c # cs) =
     (if isdigit c then atoi_digits (acc * 10 + (int (of_char c) - 48)) cs else acc)"

definition strtol :: "string \<Rightarrow> int" where
  "strtol s =
     (let v = (case dropWhile isspace s of
                 [] \<Rightarrow> 0
               | c # cs \<Rightarrow> if c = CHR ''-'' then - atoi_digits 0 cs
                          else if c = CHR ''+'' then atoi_digits 0 cs
                          else atoi_digits 0 (c # cs))
      in if v > 2^63 - 1 then 2^63 - 1 else if v < - (2^63) then - (2^63) else v)"

definition atoi :: "string \<Rightarrow> 32 word" where
  "atoi s = word_of_int (strtol s)"

text \<open>
  Modelled from the spec: \<open>sqlite3FitsIn32Bits\<close> is not part of the sources at hand; it is
  the ``bounded-to-32-bits check'' of the text of a number.  After one optional sign, the
  decimal digits at the start of the text are fewer than ten, or they are ten and do not
  exceed \<open>2147483647\<close>.
\<close>

definition sqlite3FitsIn32Bits :: "string \<Rightarrow> bool" where
  "sqlite3FitsIn32Bits zNum =
     (let z = (case zNum of
                 [] \<Rightarrow> []
               | c # cs \<Rightarrow> if c = CHR ''-'' \<or> c = CHR ''+'' then cs else zNum);
          i = length (takeWhile isdigit z)
      in i < 10 \<or> (i = 10 \<and> atoi_digits 0 z \<le> 2147483647))"












definition mkToken :: "addr \<Rightarrow> string \<Rightarrow> nat \<Rightarrow> Token" where
  "mkToken a s k = \<lparr>tz = Some (a, s), tn = k, dyn = False\<rparr>"

definition nullToken :: Token where
  "nullToken = \<lparr>tz = None, tn = 0, dyn = False\<rparr>"

definition mkRec :: "TK \<Rightarrow> Token \<Rightarrow> ExprRec" where
  "mkRec k t = \<lparr>op = k, dataType = 0, iDb = 0, token = t, span = t, iTable = 0, iColumn = 0,
     iAgg = 0\<rparr>"

text \<open>A leaf node at address \<open>a\<close>, as \<open>sqlite3Expr(op, 0, 0, &token)\<close> builds it.\<close>

definition leafExpr :: "addr \<Rightarrow> TK \<Rightarrow> Token \<Rightarrow> Expr" where
  "leafExpr a k t = Expr a (mkRec k t) NullExpr NullExpr NullExprList NullSelect"


section \<open>Expression type inference and code generation (expr.c)\<close>

definition SQLITE_SO_TEXT :: int where "SQLITE_SO_TEXT = 2"
definition SQLITE_SO_NUM :: int where "SQLITE_SO_NUM = 4"
definition SQLITE_SO_TYPEMASK :: int where "SQLITE_SO_TYPEMASK = 6"

fun sqlite3ExprType :: "Expr \<Rightarrow> int option"
  and exprType_select :: "Select \<Rightarrow> int option"
  and exprType_first :: "ExprList \<Rightarrow> int option"
  and exprType_item0 :: "ExprItems \<Rightarrow> int option"
  and exprType_case :: "ExprItems \<Rightarrow> int option"
where
  "sqlite3ExprType NullExpr = Some SQLITE_SO_NUM"
| "sqlite3ExprType (Expr a r l rt lst sel) =
     (if op r \<in> {TK_PLUS, TK_MINUS, TK_STAR, TK_SLASH, TK_AND, TK_OR, TK_ISNULL, TK_NOTNULL, TK_NOT,
                  TK_UMINUS, TK_UPLUS, TK_BITAND, TK_BITOR, TK_BITNOT, TK_LSHIFT, TK_RSHIFT, TK_REM,
                  TK_INTEGER, TK_FLOAT, TK_IN, TK_BETWEEN, TK_GLOB, TK_LIKE}
      then Some SQLITE_SO_NUM
      else if op r \<in> {TK_STRING, TK_NULL, TK_CONCAT, TK_VARIABLE} then Some SQLITE_SO_TEXT
      else if op r \<in> {TK_LT, TK_LE, TK_GT, TK_GE, TK_NE, TK_EQ} then
        (case sqlite3ExprType l of
           None \<Rightarrow> None
         | Some t \<Rightarrow> if t = SQLITE_SO_NUM then Some SQLITE_SO_NUM else sqlite3ExprType rt)
      else if op r = TK_AS then sqlite3ExprType l
      else if op r \<in> {TK_COLUMN, TK_FUNCTION, TK_AGG_FUNCTION} then Some (dataType r)
      else if op r = TK_SELECT then exprType_select sel
      else if op r = TK_CASE then
        (case (if rt = NullExpr then Some SQLITE_SO_TEXT else sqlite3ExprType rt) of
           None \<Rightarrow> None
         | Some t \<Rightarrow>
             if rt \<noteq> NullExpr \<and> t = SQLITE_SO_NUM then Some SQLITE_SO_NUM
             else (case lst of
                     NullExprList \<Rightarrow> Some SQLITE_SO_TEXT
                   | ExprList la na arr its \<Rightarrow> exprType_case its))
      else None)"
| "exprType_select NullSelect = None"
| "exprType_select (Select a r el src wh gb hv ob pr) = exprType_first el"
| "exprType_first NullExprList = None"
| "exprType_first (ExprList a na arr its) = exprType_item0 its"
| "exprType_item0 ItemNil = None"
| "exprType_item0 (ItemCons ir e rest) = sqlite3ExprType e"
| "exprType_case ItemNil = Some SQLITE_SO_TEXT"
| "exprType_case (ItemCons ir e ItemNil) = Some SQLITE_SO_TEXT"
| "exprType_case (ItemCons ir e (ItemCons ir' e' rest)) =
     (case sqlite3ExprType e' of
        None \<Rightarrow> None
      | Some t \<Rightarrow> if t = SQLITE_SO_NUM then Some SQLITE_SO_NUM else exprType_case rest)"


datatype OP = OP_Add | OP_Subtract | OP_Multiply | OP_Divide | OP_And | OP_Or | OP_Lt | OP_Le
  | OP_Gt | OP_Ge | OP_Ne | OP_Eq | OP_IsNull | OP_NotNull | OP_Not | OP_Negative | OP_BitAnd
  | OP_BitOr | OP_BitNot | OP_ShiftLeft | OP_ShiftRight | OP_Remainder | OP_AggGet | OP_Column
  | OP_Recno | OP_Integer | OP_String | OP_Variable | OP_Concat | OP_AddImm | OP_Function
  | OP_MemLoad | OP_Pop | OP_Goto | OP_Found | OP_SetFound | OP_NotFound | OP_SetNotFound
  | OP_Dup | OP_Pull | OP_If | OP_IfNot | OP_Halt

record FuncDef =
  fd_nArg :: int
  xFunc :: bool
  xStep :: bool
  fd_dataType :: int
  includeTypes :: bool

datatype P3 = P3_NOTUSED | P3_TEXT string | P3_STATIC string | P3_POINTER FuncDef

record VdbeOp =
  opcode :: int
  op_p1 :: int
  op_p2 :: int
  op_p3 :: P3

record Vdbe =
  aOp :: "VdbeOp list"
  nLabel :: nat
  aLabel :: "int list"

record TriggerStack =
  newIdx :: int
  oldIdx :: int
  trigTab :: "Table option"
  ignoreJump :: int

record Parse =
  pVdbe :: "Vdbe option"
  file_format :: int
  aFunc :: "string \<Rightarrow> FuncDef list"
  dbName :: "int \<Rightarrow> string"
  useAgg :: bool
  trigStack :: "TriggerStack option"
  nErr :: int
  zErrMsg :: "string option"
  malloc_failed :: bool

record Host =
  opnum :: "OP \<Rightarrow> int"

text \<open>
  Modelled from the spec: the program under construction.  The file that builds it
  (\<open>sqlite3VdbeAddOp\<close>, \<open>sqlite3VdbeMakeLabel\<close>, \<open>sqlite3VdbeResolveLabel\<close>,
  \<open>sqlite3VdbeCurrentAddr\<close>, \<open>sqlite3VdbeChangeP2\<close>, \<open>sqlite3VdbeChangeP3\<close>,
  \<open>sqlite3VdbeDequoteP3\<close>) and \<open>sqlite3Dequote\<close>, \<open>sqlite3ErrorMsg\<close> are not part of the
  sources at hand.  The program is the sequence of instructions \<open>(opcode, p1, p2, p3)\<close> in the
  order in which they are added, with a label table; labels are negative integers, the current
  address is the index of the next instruction, and the P3 operations act on the instruction
  added last.  The opcode numbers are a parameter (\<open>Host\<close>).
\<close>

definition sqlite3VdbeAddOp :: "Vdbe \<Rightarrow> int \<Rightarrow> int \<Rightarrow> int \<Rightarrow> int \<times> Vdbe" where
  "sqlite3VdbeAddOp v opc a b =
     (int (length (aOp v)), v\<lparr>aOp := aOp v @ [\<lparr>opcode = opc, op_p1 = a, op_p2 = b, op_p3 = P3_NOTUSED\<rparr>]\<rparr>)"

definition sqlite3VdbeCurrentAddr :: "Vdbe \<Rightarrow> int" where
  "sqlite3VdbeCurrentAddr v = int (length (aOp v))"

definition sqlite3VdbeMakeLabel :: "Vdbe \<Rightarrow> int \<times> Vdbe" where
  "sqlite3VdbeMakeLabel v = (- 1 - int (nLabel v), v\<lparr>nLabel := nLabel v + 1, aLabel := aLabel v @ [- 1]\<rparr>)"

definition sqlite3VdbeResolveLabel :: "Vdbe \<Rightarrow> int \<Rightarrow> Vdbe" where
  "sqlite3VdbeResolveLabel v x =
     (if x < 0 \<and> nat (- 1 - x) < length (aLabel v)
      then v\<lparr>aLabel := (aLabel v)[nat (- 1 - x) := int (length (aOp v))]\<rparr> else v)"

definition sqlite3VdbeChangeP2 :: "Vdbe \<Rightarrow> int \<Rightarrow> int \<Rightarrow> Vdbe" where
  "sqlite3VdbeChangeP2 v addr val =
     (if 0 \<le> addr \<and> nat addr < length (aOp v)
      then v\<lparr>aOp := (aOp v)[nat addr := (aOp v ! nat addr)\<lparr>op_p2 := val\<rparr>]\<rparr> else v)"

definition set_last_p3 :: "Vdbe \<Rightarrow> (P3 \<Rightarrow> P3) \<Rightarrow> Vdbe" where
  "set_last_p3 v f =
     (if aOp v = [] then v
      else v\<lparr>aOp := butlast (aOp v) @ [(last (aOp v))\<lparr>op_p3 := f (op_p3 (last (aOp v)))\<rparr>]\<rparr>)"

definition sqlite3VdbeChangeP3 :: "Vdbe \<Rightarrow> string \<Rightarrow> nat \<Rightarrow> Vdbe" where
  "sqlite3VdbeChangeP3 v zP3 k =
     set_last_p3 v (\<lambda>_. if k = 0 then P3_STATIC zP3 else P3_TEXT (take k zP3))"

fun dequote_loop :: "char \<Rightarrow> string \<Rightarrow> string" where
  "dequote_loop q [] = []"
| "dequote_loop q [c] = (if c = q then [] else [c])"
| "dequote_loop q (c # d # cs) =
     (if c = q then (if d = q then q # dequote_loop q cs else [])
      else c # dequote_loop q (d # cs))"

definition sqlite3Dequote :: "string \<Rightarrow> string" where
  "sqlite3Dequote s =
     (case s of
        [] \<Rightarrow> []
      | c # cs \<Rightarrow>
          if c = CHR 0x27 \<or> c = CHR 0x22 then dequote_loop c cs
          else if c = CHR ''['' then dequote_loop CHR '']'' cs
          else s)"

definition sqlite3VdbeDequoteP3 :: "Vdbe \<Rightarrow> Vdbe" where
  "sqlite3VdbeDequoteP3 v =
     set_last_p3 v (\<lambda>x. case x of P3_TEXT s \<Rightarrow> P3_TEXT (sqlite3Dequote s)
                              | P3_STATIC s \<Rightarrow> P3_TEXT (sqlite3Dequote s)
                              | _ \<Rightarrow> x)"

definition sqlite3ErrorMsg :: "Parse \<Rightarrow> string \<Rightarrow> Parse" where
  "sqlite3ErrorMsg pParse msg = pParse\<lparr>nErr := nErr pParse + 1, zErrMsg := Some msg\<rparr>"

text \<open>emit: sqlite3VdbeAddOp on the program of the parse context\<close>

definition emit :: "Parse \<Rightarrow> int \<Rightarrow> int \<Rightarrow> int \<Rightarrow> Parse" where
  "emit pParse opc a b = pParse\<lparr>pVdbe := map_option (\<lambda>v. snd (sqlite3VdbeAddOp v opc a b)) (pVdbe pParse)\<rparr>"

definition with_vdbe :: "Parse \<Rightarrow> (Vdbe \<Rightarrow> Vdbe) \<Rightarrow> Parse" where
  "with_vdbe pParse f = pParse\<lparr>pVdbe := map_option f (pVdbe pParse)\<rparr>"

definition curAddr :: "Parse \<Rightarrow> int" where
  "curAddr pParse = (case pVdbe pParse of None \<Rightarrow> 0 | Some v \<Rightarrow> sqlite3VdbeCurrentAddr v)"


fun first_valid :: "FuncDef list \<Rightarrow> FuncDef option" where
  "first_valid [] = None"
| "first_valid (f # fs) = (if \<not> xFunc f \<and> \<not> xStep f then first_valid fs else Some f)"

fun find_nArg :: "FuncDef list \<Rightarrow> int \<Rightarrow> FuncDef option \<Rightarrow> FuncDef option \<times> FuncDef option" where
  "find_nArg [] k pMaybe = (None, pMaybe)"
| "find_nArg (f # fs) k pMaybe =
     (if fd_nArg f \<noteq> k
      then find_nArg fs k (if fd_nArg f < 0 \<and> (xFunc f \<or> xStep f) then Some f else pMaybe)
      else (Some f, pMaybe))"

definition sqlite3FindFunction :: "Parse \<Rightarrow> string \<Rightarrow> int \<Rightarrow> FuncDef option" where
  "sqlite3FindFunction pParse zNm k =
     (let chain = aFunc pParse zNm in
      if chain \<noteq> [] \<and> k < 0 then first_valid chain
      else (case find_nArg chain k None of
              (Some f, pMaybe) \<Rightarrow> if \<not> xFunc f \<and> \<not> xStep f then None else Some f
            | (None, pMaybe) \<Rightarrow> pMaybe))"

definition getFunctionName :: "ExprRec \<Rightarrow> string option" where
  "getFunctionName r =
     (case op r of
        TK_FUNCTION \<Rightarrow> map_option (\<lambda>(a, s). take (tn (token r)) s) (tz (token r))
      | TK_LIKE \<Rightarrow> Some ''like''
      | TK_GLOB \<Rightarrow> Some ''glob''
      | _ \<Rightarrow> Some ''can't happen'')"

primrec nExpr :: "ExprItems \<Rightarrow> nat" where
  "nExpr ItemNil = 0"
| "nExpr (ItemCons ir e rest) = Suc (nExpr rest)"

definition exprCode_op :: "Host \<Rightarrow> TK \<Rightarrow> int" where
  "exprCode_op h k =
     (case k of
        TK_PLUS \<Rightarrow> opnum h OP_Add | TK_MINUS \<Rightarrow> opnum h OP_Subtract
      | TK_STAR \<Rightarrow> opnum h OP_Multiply | TK_SLASH \<Rightarrow> opnum h OP_Divide
      | TK_AND \<Rightarrow> opnum h OP_And | TK_OR \<Rightarrow> opnum h OP_Or
      | TK_LT \<Rightarrow> opnum h OP_Lt | TK_LE \<Rightarrow> opnum h OP_Le
      | TK_GT \<Rightarrow> opnum h OP_Gt | TK_GE \<Rightarrow> opnum h OP_Ge
      | TK_NE \<Rightarrow> opnum h OP_Ne | TK_EQ \<Rightarrow> opnum h OP_Eq
      | TK_ISNULL \<Rightarrow> opnum h OP_IsNull | TK_NOTNULL \<Rightarrow> opnum h OP_NotNull
      | TK_NOT \<Rightarrow> opnum h OP_Not | TK_UMINUS \<Rightarrow> opnum h OP_Negative
      | TK_BITAND \<Rightarrow> opnum h OP_BitAnd | TK_BITOR \<Rightarrow> opnum h OP_BitOr
      | TK_BITNOT \<Rightarrow> opnum h OP_BitNot | TK_LSHIFT \<Rightarrow> opnum h OP_ShiftLeft
      | TK_RSHIFT \<Rightarrow> opnum h OP_ShiftRight | TK_REM \<Rightarrow> opnum h OP_Remainder
      | _ \<Rightarrow> 0)"

definition ifTrue_op :: "Host \<Rightarrow> TK \<Rightarrow> int" where
  "ifTrue_op h k =
     (case k of
        TK_LT \<Rightarrow> opnum h OP_Lt | TK_LE \<Rightarrow> opnum h OP_Le
      | TK_GT \<Rightarrow> opnum h OP_Gt | TK_GE \<Rightarrow> opnum h OP_Ge
      | TK_NE \<Rightarrow> opnum h OP_Ne | TK_EQ \<Rightarrow> opnum h OP_Eq
      | TK_ISNULL \<Rightarrow> opnum h OP_IsNull | TK_NOTNULL \<Rightarrow> opnum h OP_NotNull
      | _ \<Rightarrow> 0)"

definition ifFalse_op :: "Host \<Rightarrow> TK \<Rightarrow> int" where
  "ifFalse_op h k =
     (case k of
        TK_LT \<Rightarrow> opnum h OP_Ge | TK_LE \<Rightarrow> opnum h OP_Gt
      | TK_GT \<Rightarrow> opnum h OP_Le | TK_GE \<Rightarrow> opnum h OP_Lt
      | TK_NE \<Rightarrow> opnum h OP_Eq | TK_EQ \<Rightarrow> opnum h OP_Ne
      | TK_ISNULL \<Rightarrow> opnum h OP_NotNull | TK_NOTNULL \<Rightarrow> opnum h OP_IsNull
      | _ \<Rightarrow> 0)"

definition OE_Rollback :: int where "OE_Rollback = 1"
definition OE_Abort :: int where "OE_Abort = 2"
definition OE_Fail :: int where "OE_Fail = 3"
definition SQLITE_CONSTRAINT :: int where "SQLITE_CONSTRAINT = 19"

definition is_comparison :: "TK \<Rightarrow> bool" where
  "is_comparison k = (k \<in> {TK_LT, TK_LE, TK_GT, TK_GE, TK_NE, TK_EQ})"

text \<open>the literal case of sqlite3ExprCode and the fused unary minus\<close>

definition code_literal :: "Host \<Rightarrow> Parse \<Rightarrow> bool \<Rightarrow> string \<Rightarrow> nat \<Rightarrow> bool \<Rightarrow> Parse" where
  "code_literal h p isInt z k deq =
     (let q1 = (if isInt \<and> sqlite3FitsIn32Bits z then emit p (opnum h OP_Integer) (sint (atoi z)) 0
                else emit p (opnum h OP_String) 0 0);
          q2 = with_vdbe q1 (\<lambda>v. sqlite3VdbeChangeP3 v z k)
      in if deq then with_vdbe q2 sqlite3VdbeDequoteP3 else q2)"

definition text_affinity :: "Parse \<Rightarrow> Expr \<Rightarrow> bool option" where
  "text_affinity p e =
     (if file_format p \<ge> 4
      then map_option (\<lambda>t. t = SQLITE_SO_TEXT) (sqlite3ExprType e)
      else Some False)"

fun sqlite3ExprCode :: "Host \<Rightarrow> Parse \<Rightarrow> Expr \<Rightarrow> Parse option"
  and codeExprList :: "Host \<Rightarrow> Parse \<Rightarrow> ExprItems \<Rightarrow> bool \<Rightarrow> Parse option"
  and codeCase :: "Host \<Rightarrow> Parse \<Rightarrow> bool \<Rightarrow> int \<Rightarrow> ExprItems \<Rightarrow> Parse option"
where
  "sqlite3ExprCode h p NullExpr = Some p"
| "sqlite3ExprCode h p (Expr a r l rt lst sel) =
     (if pVdbe p = None then Some p
      else if op r = TK_COLUMN then
        Some (if useAgg p then emit p (opnum h OP_AggGet) 0 (iAgg r)
              else if iColumn r \<ge> 0 then emit p (opnum h OP_Column) (iTable r) (iColumn r)
              else emit p (opnum h OP_Recno) (iTable r) 0)
      else if op r \<in> {TK_STRING, TK_FLOAT, TK_INTEGER} then
        (case tz (token r) of
           None \<Rightarrow> None
         | Some (_, z) \<Rightarrow> Some (code_literal h p (op r = TK_INTEGER) z (tn (token r)) True))
      else if op r = TK_NULL then Some (emit p (opnum h OP_String) 0 0)
      else if op r = TK_VARIABLE then Some (emit p (opnum h OP_Variable) (iTable r) 0)
      else if is_comparison (op r) then
        do {
          txt \<leftarrow> text_affinity p (Expr a r l rt lst sel);
          q1 \<leftarrow> sqlite3ExprCode h p l;
          q2 \<leftarrow> sqlite3ExprCode h q1 rt;
          Some (emit q2 (if txt then exprCode_op h (op r) + 6 else exprCode_op h (op r)) 0 0)
        }
      else if op r \<in> {TK_AND, TK_OR, TK_PLUS, TK_STAR, TK_MINUS, TK_REM, TK_BITAND, TK_BITOR, TK_SLASH} then
        do {
          q1 \<leftarrow> sqlite3ExprCode h p l;
          q2 \<leftarrow> sqlite3ExprCode h q1 rt;
          Some (emit q2 (exprCode_op h (op r)) 0 0)
        }
      else if op r \<in> {TK_LSHIFT, TK_RSHIFT} then
        do {
          q1 \<leftarrow> sqlite3ExprCode h p rt;
          q2 \<leftarrow> sqlite3ExprCode h q1 l;
          Some (emit q2 (exprCode_op h (op r)) 0 0)
        }
      else if op r = TK_CONCAT then
        do {
          q1 \<leftarrow> sqlite3ExprCode h p l;
          q2 \<leftarrow> sqlite3ExprCode h q1 rt;
          Some (emit q2 (opnum h OP_Concat) 2 0)
        }
      else if op r \<in> {TK_UMINUS, TK_BITNOT, TK_NOT} then
        (case l of
           NullExpr \<Rightarrow> if op r = TK_UMINUS then None else Some (emit p (exprCode_op h (op r)) 0 0)
         | Expr la lr ll lrt llst lsel \<Rightarrow>
             if op r = TK_UMINUS \<and> (op lr = TK_FLOAT \<or> op lr = TK_INTEGER) then
               (case tz (token lr) of
                  None \<Rightarrow> None
                | Some (_, z) \<Rightarrow>
                    Some (code_literal h p (op lr = TK_INTEGER)
                            (CHR ''-'' # take (tn (token lr)) z) (tn (token lr) + 1) False))
             else
               do {
                 q1 \<leftarrow> sqlite3ExprCode h p l;
                 Some (emit q1 (exprCode_op h (op r)) 0 0)
               })
      else if op r \<in> {TK_ISNULL, TK_NOTNULL} then
        do {
          q1 \<leftarrow> sqlite3ExprCode h (emit p (opnum h OP_Integer) 1 0) l;
          Some (emit (emit q1 (exprCode_op h (op r)) 1 (curAddr q1 + 2)) (opnum h OP_AddImm) (- 1) 0)
        }
      else if op r = TK_AGG_FUNCTION then Some (emit p (opnum h OP_AggGet) 0 (iAgg r))
      else if op r \<in> {TK_GLOB, TK_LIKE, TK_FUNCTION} then
        do {
          zId \<leftarrow> getFunctionName r;
          pDef \<leftarrow> sqlite3FindFunction p zId
                    (case lst of NullExprList \<Rightarrow> 0 | ExprList la na arr its \<Rightarrow> int (nExpr its));
          q1 \<leftarrow> (case lst of
                   NullExprList \<Rightarrow> Some p
                 | ExprList la na arr its \<Rightarrow> codeExprList h p its (includeTypes pDef));
          Some (with_vdbe
                  (emit q1 (opnum h OP_Function)
                     (case lst of
                        NullExprList \<Rightarrow> 0
                      | ExprList la na arr its \<Rightarrow>
                          if includeTypes pDef then 2 * int (nExpr its) else int (nExpr its)) 0)
                  (\<lambda>v. set_last_p3 v (\<lambda>_. P3_POINTER pDef)))
        }
      else if op r = TK_SELECT then Some (emit p (opnum h OP_MemLoad) (iColumn r) 0)
      else if op r = TK_IN then
        do {
          q1 \<leftarrow> sqlite3ExprCode h (emit p (opnum h OP_Integer) 1 0) l;
          Some (let addr = curAddr q1;
                    q2 = emit q1 (opnum h OP_NotNull) (- 1) (addr + 4);
                    q3 = emit q2 (opnum h OP_Pop) 2 0;
                    q4 = emit q3 (opnum h OP_String) 0 0;
                    q5 = emit q4 (opnum h OP_Goto) 0 (addr + 6);
                    q6 = (if sel \<noteq> NullSelect then emit q5 (opnum h OP_Found) (iTable r) (addr + 6)
                          else emit q5 (opnum h OP_SetFound) (iTable r) (addr + 6))
                in emit q6 (opnum h OP_AddImm) (- 1) 0)
        }
      else if op r = TK_BETWEEN then
        (case lst of
           ExprList la na arr (ItemCons i0 e0 (ItemCons i1 e1 rest)) \<Rightarrow>
             do {
               q1 \<leftarrow> sqlite3ExprCode h p l;
               q2 \<leftarrow> sqlite3ExprCode h (emit q1 (opnum h OP_Dup) 0 0) e0;
               q3 \<leftarrow> sqlite3ExprCode h (emit (emit q2 (opnum h OP_Ge) 0 0) (opnum h OP_Pull) 1 0) e1;
               Some (emit (emit q3 (opnum h OP_Le) 0 0) (opnum h OP_And) 0 0)
             }
         | _ \<Rightarrow> None)
      else if op r \<in> {TK_UPLUS, TK_AS} then sqlite3ExprCode h p l
      else if op r = TK_CASE then
        (case lst of
           NullExprList \<Rightarrow> None
         | ExprList la na arr its \<Rightarrow>
             (case pVdbe p of
                None \<Rightarrow> None
              | Some v \<Rightarrow>
                  do {
                    let (lbl, v1) = sqlite3VdbeMakeLabel v;
                    q1 \<leftarrow> sqlite3ExprCode h (p\<lparr>pVdbe := Some v1\<rparr>) l;
                    q2 \<leftarrow> codeCase h q1 (l \<noteq> NullExpr) lbl its;
                    let q3 = (if l \<noteq> NullExpr then emit q2 (opnum h OP_Pop) 1 0 else q2);
                    q4 \<leftarrow> (if rt \<noteq> NullExpr then sqlite3ExprCode h q3 rt
                           else Some (emit q3 (opnum h OP_String) 0 0));
                    Some (with_vdbe q4 (\<lambda>v. sqlite3VdbeResolveLabel v lbl))
                  }))
      else if op r = TK_RAISE then
        (case trigStack p of
           None \<Rightarrow>
             Some ((sqlite3ErrorMsg p ''RAISE() may only be used within a trigger-program'')
                     \<lparr>nErr := nErr p + 2\<rparr>)
         | Some ts \<Rightarrow>
             if iColumn r = OE_Rollback \<or> iColumn r = OE_Abort \<or> iColumn r = OE_Fail then
               (case tz (token r) of
                  None \<Rightarrow> None
                | Some (_, z) \<Rightarrow>
                    Some (with_vdbe
                            (with_vdbe (emit p (opnum h OP_Halt) SQLITE_CONSTRAINT (iColumn r))
                               (\<lambda>v. sqlite3VdbeChangeP3 v z (tn (token r))))
                            sqlite3VdbeDequoteP3))
             else
               Some (with_vdbe (emit p (opnum h OP_Goto) 0 (ignoreJump ts))
                       (\<lambda>v. sqlite3VdbeChangeP3 v ''(IGNORE jump)'' 0)))
      else Some p)"
| "codeExprList h p ItemNil incl = Some p"
| "codeExprList h p (ItemCons ir e rest) incl =
     do {
       q1 \<leftarrow> sqlite3ExprCode h p e;
       q2 \<leftarrow> (if incl then
                 do {
                   t \<leftarrow> sqlite3ExprType e;
                   Some (with_vdbe (emit q1 (opnum h OP_String) 0 0)
                           (\<lambda>v. set_last_p3 v (\<lambda>_. P3_STATIC (if t = SQLITE_SO_NUM then ''numeric'' else ''text''))))
                 }
               else Some q1);
       codeExprList h q2 rest incl
     }"
| "codeCase h p hasLeft lbl ItemNil = Some p"
| "codeCase h p hasLeft lbl (ItemCons i0 w ItemNil) = None"
| "codeCase h p hasLeft lbl (ItemCons i0 w (ItemCons i1 t rest)) =
     do {
       q1 \<leftarrow> sqlite3ExprCode h p w;
       let jumpInst = (if hasLeft then curAddr q1 + 1 else curAddr q1);
       let q2 = (if hasLeft
                 then emit (emit (emit q1 (opnum h OP_Dup) 1 1) (opnum h OP_Ne) 1 0) (opnum h OP_Pop) 1 0
                 else emit q1 (opnum h OP_IfNot) 1 0);
       q3 \<leftarrow> sqlite3ExprCode h q2 t;
       let q4 = emit q3 (opnum h OP_Goto) 0 lbl;
       codeCase h (with_vdbe q4 (\<lambda>v. sqlite3VdbeChangeP2 v jumpInst (sqlite3VdbeCurrentAddr v)))
         hasLeft lbl rest
     }"


definition notInt :: "int \<Rightarrow> int" where
  "notInt x = (if x = 0 then 1 else 0)"

definition code_in_branch :: "Host \<Rightarrow> Parse \<Rightarrow> ExprRec \<Rightarrow> Select \<Rightarrow> int \<Rightarrow> int \<Rightarrow> OP \<Rightarrow> OP \<Rightarrow> Parse" where
  "code_in_branch h q r sel dest jumpIfNull opFound opSetFound =
     (let addr = curAddr q;
          q2 = emit q (opnum h OP_NotNull) (- 1) (addr + 3);
          q3 = emit q2 (opnum h OP_Pop) 1 0;
          q4 = emit q3 (opnum h OP_Goto) 0 (if jumpIfNull \<noteq> 0 then dest else addr + 4)
      in if sel \<noteq> NullSelect then emit q4 (opnum h opFound) (iTable r) dest
         else emit q4 (opnum h opSetFound) (iTable r) dest)"

fun sqlite3ExprIfTrue :: "Host \<Rightarrow> Parse \<Rightarrow> Expr \<Rightarrow> int \<Rightarrow> int \<Rightarrow> Parse option"
  and sqlite3ExprIfFalse :: "Host \<Rightarrow> Parse \<Rightarrow> Expr \<Rightarrow> int \<Rightarrow> int \<Rightarrow> Parse option"
where
  "sqlite3ExprIfTrue h p NullExpr dest jumpIfNull = Some p"
| "sqlite3ExprIfTrue h p (Expr a r l rt lst sel) dest jumpIfNull =
     (case pVdbe p of
        None \<Rightarrow> Some p
      | Some v \<Rightarrow>
          if op r = TK_AND then
            do {
              let (d2, v1) = sqlite3VdbeMakeLabel v;
              q1 \<leftarrow> sqlite3ExprIfFalse h (p\<lparr>pVdbe := Some v1\<rparr>) l d2 (notInt jumpIfNull);
              q2 \<leftarrow> sqlite3ExprIfTrue h q1 rt dest jumpIfNull;
              Some (with_vdbe q2 (\<lambda>v. sqlite3VdbeResolveLabel v d2))
            }
          else if op r = TK_OR then
            do {
              q1 \<leftarrow> sqlite3ExprIfTrue h p l dest jumpIfNull;
              sqlite3ExprIfTrue h q1 rt dest jumpIfNull
            }
          else if op r = TK_NOT then sqlite3ExprIfFalse h p l dest jumpIfNull
          else if is_comparison (op r) then
            do {
              q1 \<leftarrow> sqlite3ExprCode h p l;
              q2 \<leftarrow> sqlite3ExprCode h q1 rt;
              txt \<leftarrow> text_affinity q2 (Expr a r l rt lst sel);
              Some (emit q2 (if txt then ifTrue_op h (op r) + 6 else ifTrue_op h (op r)) jumpIfNull dest)
            }
          else if op r \<in> {TK_ISNULL, TK_NOTNULL} then
            do {
              q1 \<leftarrow> sqlite3ExprCode h p l;
              Some (emit q1 (ifTrue_op h (op r)) 1 dest)
            }
          else if op r = TK_IN then
            do {
              q1 \<leftarrow> sqlite3ExprCode h p l;
              Some (code_in_branch h q1 r sel dest jumpIfNull OP_Found OP_SetFound)
            }
          else if op r = TK_BETWEEN then
            (case lst of
               ExprList la na arr (ItemCons i0 e0 (ItemCons i1 e1 rest)) \<Rightarrow>
                 do {
                   q1 \<leftarrow> sqlite3ExprCode h p l;
                   q2 \<leftarrow> sqlite3ExprCode h (emit q1 (opnum h OP_Dup) 0 0) e0;
                   let addr = curAddr q2;
                   q3 \<leftarrow> sqlite3ExprCode h (emit q2 (opnum h OP_Lt) (notInt jumpIfNull) 0) e1;
                   let q4 = emit (emit q3 (opnum h OP_Le) jumpIfNull dest) (opnum h OP_Integer) 0 0;
                   Some (emit (with_vdbe q4 (\<lambda>v. sqlite3VdbeChangeP2 v addr (sqlite3VdbeCurrentAddr v)))
                           (opnum h OP_Pop) 1 0)
                 }
             | _ \<Rightarrow> None)
          else
            do {
              q1 \<leftarrow> sqlite3ExprCode h p (Expr a r l rt lst sel);
              Some (emit q1 (opnum h OP_If) jumpIfNull dest)
            })"
| "sqlite3ExprIfFalse h p NullExpr dest jumpIfNull = Some p"
| "sqlite3ExprIfFalse h p (Expr a r l rt lst sel) dest jumpIfNull =
     (case pVdbe p of
        None \<Rightarrow> Some p
      | Some v \<Rightarrow>
          if op r = TK_AND then
            do {
              q1 \<leftarrow> sqlite3ExprIfFalse h p l dest jumpIfNull;
              sqlite3ExprIfFalse h q1 rt dest jumpIfNull
            }
          else if op r = TK_OR then
            do {
              let (d2, v1) = sqlite3VdbeMakeLabel v;
              q1 \<leftarrow> sqlite3ExprIfTrue h (p\<lparr>pVdbe := Some v1\<rparr>) l d2 (notInt jumpIfNull);
              q2 \<leftarrow> sqlite3ExprIfFalse h q1 rt dest jumpIfNull;
              Some (with_vdbe q2 (\<lambda>v. sqlite3VdbeResolveLabel v d2))
            }
          else if op r = TK_NOT then sqlite3ExprIfTrue h p l dest jumpIfNull
          else if is_comparison (op r) then
            do {
              txt \<leftarrow> text_affinity p (Expr a r l rt lst sel);
              q1 \<leftarrow> sqlite3ExprCode h p l;
              q2 \<leftarrow> sqlite3ExprCode h q1 rt;
              Some (emit q2 (if txt then ifFalse_op h (op r) + 6 else ifFalse_op h (op r)) jumpIfNull dest)
            }
          else if op r \<in> {TK_ISNULL, TK_NOTNULL} then
            do {
              q1 \<leftarrow> sqlite3ExprCode h p l;
              Some (emit q1 (ifFalse_op h (op r)) 1 dest)
            }
          else if op r = TK_IN then
            do {
              q1 \<leftarrow> sqlite3ExprCode h p l;
              Some (code_in_branch h q1 r sel dest jumpIfNull OP_NotFound OP_SetNotFound)
            }
          else if op r = TK_BETWEEN then
            (case lst of
               ExprList la na arr (ItemCons i0 e0 (ItemCons i1 e1 rest)) \<Rightarrow>
                 do {
                   q1 \<leftarrow> sqlite3ExprCode h p l;
                   q2 \<leftarrow> sqlite3ExprCode h (emit q1 (opnum h OP_Dup) 0 0) e0;
                   let addr = curAddr q2;
                   let q3 = emit (emit (emit q2 (opnum h OP_Ge) (notInt jumpIfNull) (addr + 3))
                                    (opnum h OP_Pop) 1 0) (opnum h OP_Goto) 0 dest;
                   q4 \<leftarrow> sqlite3ExprCode h q3 e1;
                   Some (emit q4 (opnum h OP_Gt) jumpIfNull dest)
                 }
             | _ \<Rightarrow> None)
          else
            do {
              q1 \<leftarrow> sqlite3ExprCode h p (Expr a r l rt lst sel);
              Some (emit q1 (opnum h OP_IfNot) jumpIfNull dest)
            })"

text \<open>
  The numeric comparison opcode that the first \<open>switch\<close> of \<open>sqlite3ExprCode\<close> and of
  \<open>sqlite3ExprIfTrue\<close> selects for a comparison operator, and the one \<open>sqlite3ExprIfFalse\<close>
  selects (the opcode of the negated comparison).
\<close>

definition cmp_opcode :: "Host \<Rightarrow> TK \<Rightarrow> int" where
  "cmp_opcode h k =
     (if k = TK_LT then opnum h OP_Lt else if k = TK_LE then opnum h OP_Le
      else if k = TK_GT then opnum h OP_Gt else if k = TK_GE then opnum h OP_Ge
      else if k = TK_NE then opnum h OP_Ne else opnum h OP_Eq)"

definition cmp_opcode_negated :: "Host \<Rightarrow> TK \<Rightarrow> int" where
  "cmp_opcode_negated h k =
     (if k = TK_LT then opnum h OP_Ge else if k = TK_LE then opnum h OP_Gt
      else if k = TK_GT then opnum h OP_Le else if k = TK_GE then opnum h OP_Lt
      else if k = TK_NE then opnum h OP_Eq else opnum h OP_Ne)"

text \<open>The instruction added last, and the opcode after the affinity test of the three emitters.\<close>

definition last_op :: "Parse \<Rightarrow> VdbeOp option" where
  "last_op p = (case pVdbe p of None \<Rightarrow> None
                | Some v \<Rightarrow> if aOp v = [] then None else Some (last (aOp v)))"

definition affinity_biased :: "Parse \<Rightarrow> Expr \<Rightarrow> int \<Rightarrow> int" where
  "affinity_biased p e numeric =
     (if file_format p \<ge> 4 \<and> sqlite3ExprType e = Some SQLITE_SO_TEXT then numeric + 6 else numeric)"

text \<open>A numbering of the opcodes and a parse context with an empty program, for evaluation.\<close>

definition opnum0 :: "OP \<Rightarrow> int" where
  "opnum0 k = (if k = OP_Lt then 1 else if k = OP_Le then 2 else if k = OP_Gt then 3
               else if k = OP_Ge then 4 else if k = OP_Ne then 5 else if k = OP_Eq then 6
               else if k = OP_String then 20 else 30)"

definition host0 :: Host where
  "host0 = \<lparr>opnum = opnum0\<rparr>"

definition parse0 :: "int \<Rightarrow> Parse" where
  "parse0 ff = \<lparr>pVdbe = Some \<lparr>aOp = [], nLabel = 0, aLabel = []\<rparr>, file_format = ff,
     aFunc = (\<lambda>_. []), dbName = (\<lambda>_. ''main''), useAgg = False, trigStack = None, nErr = 0,
     zErrMsg = None, malloc_failed = False\<rparr>"

text \<open>
  The comparison \<open>'a' < 'b'\<close> of two string literals, and the parse context after the code
  of the left operand and after the code of both.
\<close>

definition text_lt_left :: Expr where
  "text_lt_left = leafExpr 2 TK_STRING (mkToken 10 [CHR 0x27, CHR ''a'', CHR 0x27] 3)"

definition text_lt_right :: Expr where
  "text_lt_right = leafExpr 3 TK_STRING (mkToken 20 [CHR 0x27, CHR ''b'', CHR 0x27] 3)"

definition text_lt :: Expr where
  "text_lt = Expr 1 (mkRec TK_LT nullToken) text_lt_left text_lt_right NullExprList NullSelect"

definition text_lt_q1 :: Parse where
  "text_lt_q1 = (parse0 4)\<lparr>pVdbe := Some \<lparr>aOp = [\<lparr>opcode = 20, op_p1 = 0, op_p2 = 0,
     op_p3 = P3_TEXT ''a''\<rparr>], nLabel = 0, aLabel = []\<rparr>\<rparr>"

definition text_lt_q2 :: Parse where
  "text_lt_q2 = (parse0 4)\<lparr>pVdbe := Some \<lparr>aOp = [\<lparr>opcode = 20, op_p1 = 0, op_p2 = 0,
     op_p3 = P3_TEXT ''a''\<rparr>, \<lparr>opcode = 20, op_p1 = 0, op_p2 = 0, op_p3 = P3_TEXT ''b''\<rparr>],
     nLabel = 0, aLabel = []\<rparr>\<rparr>"

text \<open>
  What code generation leaves alone in the parse context: the file format, and whether there
  is a program.
\<close>

definition code_frame :: "Parse \<Rightarrow> Parse \<Rightarrow> bool" where
  "code_frame p p' = (file_format p' = file_format p \<and> (pVdbe p' = None) = (pVdbe p = None))"

definition code_frame_expr :: "Expr \<Rightarrow> bool" where
  "code_frame_expr e = (\<forall>h p p'. sqlite3ExprCode h p e = Some p' \<longrightarrow> code_frame p p')"

definition code_frame_case :: "ExprItems \<Rightarrow> bool" where
  "code_frame_case its = (\<forall>h p hl lbl p'. codeCase h p hl lbl its = Some p' \<longrightarrow> code_frame p p')"

definition code_frame_items :: "ExprItems \<Rightarrow> bool" where
  "code_frame_items its =
     ((\<forall>h p incl p'. codeExprList h p its incl = Some p' \<longrightarrow> code_frame p p') \<and>
      code_frame_case its \<and>
      (\<forall>i0 e0 rest. its = ItemCons i0 e0 rest \<longrightarrow> code_frame_expr e0 \<and> code_frame_case rest \<and>
          (\<forall>i1 e1 rest'. rest = ItemCons i1 e1 rest' \<longrightarrow> code_frame_expr e1)))"

definition code_frame_list :: "ExprList \<Rightarrow> bool" where
  "code_frame_list l = (\<forall>a n al its. l = ExprList a n al its \<longrightarrow> code_frame_items its)"


section \<open>The external sorter (vdbesort.c), single-threaded\<close>

text \<open>
  The model is the single-threaded sorter (one sub-task, \<open>bUseThreads = 0\<close>).  A record
  is an opaque byte string.  The host's key comparison is the parameter \<open>cmp\<close>:
  \<open>cmp a b\<close> is what \<open>sqlite3VdbeRecordCompare\<close> returns for the record \<open>a\<close> against
  the unpacked form of the record \<open>b\<close>.  A linked list of \<open>SorterRecord\<close>s is a list,
  head first, whether the records are separate allocations or sit in the bulk memory.
  A temp file is the sequence of PMAs written to it, a PMA the sequence of its records; the
  varint framing and the page buffers are not part of the model, the byte counts are.
  The sizes are C \<open>int\<close>s.  They are modelled by \<open>int\<close>, and each addition, doubling and
  product that the code computes in \<open>int\<close> is written with its wrap-around at 32 bits
  (\<open>int32\<close>); file offsets are 64-bit and are not wrapped.
\<close>

type_synonym SorterRecord = string

definition int32 :: "int \<Rightarrow> int" where
  "int32 x = sint (word_of_int x :: 32 word)"

definition SQLITE_OK :: int where "SQLITE_OK = 0"
definition SQLITE_NOMEM :: int where "SQLITE_NOMEM = 7"
definition SQLITE_IOERR :: int where "SQLITE_IOERR = 10"

text \<open>\<open>struct SorterList\<close>; \<open>aMemory\<close> tells whether the bulk memory exists.\<close>

record SorterList =
  pList :: "SorterRecord list"
  aMemory :: bool
  szPMA :: int

text \<open>\<open>struct SorterFile\<close>; \<open>pFd\<close> tells whether the file is open.\<close>

record SorterFile =
  pFd :: bool
  iEof :: int
  pmas :: "SorterRecord list list"

text \<open>
  \<open>struct SortSubtask\<close>.  \<open>pUnpacked\<close> is \<open>None\<close> while the scratch record is not
  allocated, and otherwise holds the record that was unpacked into it last (the empty
  record right after the allocation); \<open>errCode\<close> is the scratch record's error code.
\<close>

record SortSubtask =
  pUnpacked :: "SorterRecord option"
  errCode :: int
  nPMA :: int
  task_file :: SorterFile
  task_file2 :: SorterFile

text \<open>
  \<open>vdbeSorterCompare\<close>: when \<open>pKey2\<close> is not null it is unpacked into the scratch record
  first; when it is null the scratch record is used as it is.
\<close>

definition vdbeSorterCompare ::
  "(SorterRecord \<Rightarrow> SorterRecord \<Rightarrow> int) \<Rightarrow> SortSubtask \<Rightarrow> SorterRecord \<Rightarrow> SorterRecord option \<Rightarrow> int \<times> SortSubtask" where
  "vdbeSorterCompare cmp pTask pKey1 pKey2 =
     (case pKey2 of
        Some k2 \<Rightarrow> (cmp pKey1 k2, pTask\<lparr>pUnpacked := Some k2\<rparr>)
      | None \<Rightarrow> (cmp pKey1 (case pUnpacked pTask of Some k2 \<Rightarrow> k2 | None \<Rightarrow> []), pTask))"

text \<open>
  \<open>vdbeSorterMerge\<close>: the loop, with \<open>pVal2\<close> as the code keeps it (null after a record
  of \<open>p1\<close> was taken, because \<open>p2\<close>'s head is still unpacked), then the function.
\<close>

fun vdbeSorterMerge_loop ::
  "(SorterRecord \<Rightarrow> SorterRecord \<Rightarrow> int) \<Rightarrow> SortSubtask \<Rightarrow> SorterRecord list \<Rightarrow> SorterRecord list \<Rightarrow> SorterRecord option
     \<Rightarrow> SortSubtask \<times> SorterRecord list" where
  "vdbeSorterMerge_loop cmp t [] p2 pVal2 = (t, p2)"
| "vdbeSorterMerge_loop cmp t (x # xs) [] pVal2 = (t, x # xs)"
| "vdbeSorterMerge_loop cmp t (x # xs) (y # ys) pVal2 =
     (let (res, t') = vdbeSorterCompare cmp t x pVal2 in
      if res \<le> 0 then
        (let (t'', r) = vdbeSorterMerge_loop cmp t' xs (y # ys) None in (t'', x # r))
      else
        (case ys of
           [] \<Rightarrow> (t', y # x # xs)
         | y' # _ \<Rightarrow> (let (t'', r) = vdbeSorterMerge_loop cmp t' (x # xs) ys (Some y') in (t'', y # r))))"

definition vdbeSorterMerge ::
  "(SorterRecord \<Rightarrow> SorterRecord \<Rightarrow> int) \<Rightarrow> SortSubtask \<Rightarrow> SorterRecord list \<Rightarrow> SorterRecord list
     \<Rightarrow> SortSubtask \<times> SorterRecord list" where
  "vdbeSorterMerge cmp t p1 p2 =
     vdbeSorterMerge_loop cmp t p1 p2 (case p2 of [] \<Rightarrow> None | y # _ \<Rightarrow> Some y)"

text \<open>
  \<open>vdbeSorterSort\<close>.  \<open>aSlot\<close> is the array of 64 lists (\<open>[]\<close> for a null slot).
  \<open>sort_carry\<close> is the inner loop \<open>for(i=0; aSlot[i]; i++)\<close> followed by
  \<open>aSlot[i] = p\<close>; reading \<open>aSlot[64]\<close> is out of bounds (\<open>None\<close>).  \<open>sort_fill\<close> is
  the outer loop over the list, \<open>sort_collect\<close> the final loop over the 64 slots.
\<close>

function sort_carry ::
  "(SorterRecord \<Rightarrow> SorterRecord \<Rightarrow> int) \<Rightarrow> SortSubtask \<Rightarrow> SorterRecord list \<Rightarrow> SorterRecord list list \<Rightarrow> nat
     \<Rightarrow> (SortSubtask \<times> SorterRecord list list) option" where
  "sort_carry cmp t p aSlot i =
     (if 64 \<le> i then None
      else if aSlot ! i = [] then Some (t, aSlot[i := p])
      else (let (t', p') = vdbeSorterMerge cmp t p (aSlot ! i)
            in sort_carry cmp t' p' (aSlot[i := []]) (i + 1)))"
  by pat_completeness auto
termination
  by (relation "measure (\<lambda>(cmp, t, p, aSlot, i). 64 - i)") auto

declare sort_carry.simps [simp del]

fun sort_fill ::
  "(SorterRecord \<Rightarrow> SorterRecord \<Rightarrow> int) \<Rightarrow> SortSubtask \<Rightarrow> SorterRecord list \<Rightarrow> SorterRecord list list
     \<Rightarrow> (SortSubtask \<times> SorterRecord list list) option" where
  "sort_fill cmp t [] aSlot = Some (t, aSlot)"
| "sort_fill cmp t (r # rs) aSlot =
     (case sort_carry cmp t [r] aSlot 0 of
        None \<Rightarrow> None
      | Some (t', aSlot') \<Rightarrow> sort_fill cmp t' rs aSlot')"

fun sort_collect ::
  "(SorterRecord \<Rightarrow> SorterRecord \<Rightarrow> int) \<Rightarrow> SortSubtask \<Rightarrow> SorterRecord list \<Rightarrow> SorterRecord list list
     \<Rightarrow> SortSubtask \<times> SorterRecord list" where
  "sort_collect cmp t p [] = (t, p)"
| "sort_collect cmp t p (s # ss) =
     (let (t', p') = vdbeSorterMerge cmp t p s in sort_collect cmp t' p' ss)"


text \<open>
  The state of the 64 slots between two rounds of the outer loop: slot \<open>i\<close> is empty or
  holds \<open>2^i\<close> records.
\<close>

definition slots_inv :: "SorterRecord list list \<Rightarrow> bool" where
  "slots_inv aSlot = (length aSlot = 64 \<and> (\<forall>i<64. aSlot ! i = [] \<or> length (aSlot ! i) = 2 ^ i))"

text \<open>
  \<open>vdbeSortAllocUnpacked\<close> and \<open>vdbeSorterSort\<close>; \<open>ok\<close> tells whether the allocations
  of the call succeed.
\<close>

definition vdbeSortAllocUnpacked :: "bool \<Rightarrow> SortSubtask \<Rightarrow> int \<times> SortSubtask" where
  "vdbeSortAllocUnpacked ok pTask =
     (if pUnpacked pTask = None then
        (if ok then (SQLITE_OK, pTask\<lparr>pUnpacked := Some [], errCode := 0\<rparr>)
         else (SQLITE_NOMEM, pTask))
      else (SQLITE_OK, pTask))"

definition vdbeSorterSort ::
  "(SorterRecord \<Rightarrow> SorterRecord \<Rightarrow> int) \<Rightarrow> bool \<Rightarrow> SortSubtask \<Rightarrow> SorterList
     \<Rightarrow> (int \<times> SortSubtask \<times> SorterList) option" where
  "vdbeSorterSort cmp ok pTask lst =
     (case vdbeSortAllocUnpacked ok pTask of (rc, t0) \<Rightarrow>
        if rc \<noteq> SQLITE_OK then Some (rc, t0, lst)
        else if \<not> ok then Some (SQLITE_NOMEM, t0, lst)
        else
          (case sort_fill cmp t0 (pList lst) (replicate 64 []) of
             None \<Rightarrow> None
           | Some (t1, aSlot) \<Rightarrow>
               (case sort_collect cmp t1 [] aSlot of (t2, p) \<Rightarrow>
                  Some (errCode t2, t2, lst\<lparr>pList := p\<rparr>))))"

text \<open>
  Modelled from the spec: \<open>sqlite3VarintLen\<close> is not part of the sources at hand; it is the
  number of bytes of the varint of its argument, taken as an unsigned 64-bit number: one
  byte per 7 bits and at most 9.
\<close>

definition sqlite3VarintLen :: "int \<Rightarrow> int" where
  "sqlite3VarintLen v =
     (let u = v mod 2^64 in
      if u < 2^7 then 1 else if u < 2^14 then 2 else if u < 2^21 then 3 else if u < 2^28 then 4
      else if u < 2^35 then 5 else if u < 2^42 then 6 else if u < 2^49 then 7
      else if u < 2^56 then 8 else 9)"

text \<open>
  \<open>sizeof(SorterRecord)\<close> on an LP64 target, and the macro \<open>ROUND8(x)\<close>, which is
  \<open>((x)+7)&~7\<close> on an \<open>int\<close>.
\<close>

definition sizeof_SorterRecord :: int where "sizeof_SorterRecord = 16"

definition ROUND8 :: "int \<Rightarrow> int" where "ROUND8 x = (int32 (x + 7) div 8) * 8"

text \<open>The bytes that the records of a list take in a PMA, each with the varint of its size.\<close>

definition pma_bytes :: "SorterRecord list \<Rightarrow> int" where
  "pma_bytes rs = (\<Sum>r\<leftarrow>rs. sqlite3VarintLen (int (length r)) + int (length r))"

text \<open>
  What the environment does during one call: the heap-nearly-full hint, the result of
  opening the temp file, whether the allocations of the sort succeed, the error code the
  PMA writer ends with (and the file offset it reached if that is an error), and whether
  the system allocator serves the request for the new record or for the larger bulk memory.
\<close>

record SorterEnv =
  heapNearlyFull :: bool
  openRc :: int
  allocOk :: bool
  writeRc :: int
  failEof :: int
  mallocOk :: bool

text \<open>
  \<open>vdbeSorterListToPMA\<close>: open the file if needed, sort the list, write it as one PMA.
\<close>

definition vdbeSorterListToPMA ::
  "(SorterRecord \<Rightarrow> SorterRecord \<Rightarrow> int) \<Rightarrow> SorterEnv \<Rightarrow> SortSubtask \<Rightarrow> SorterList
     \<Rightarrow> (int \<times> SortSubtask \<times> SorterList) option" where
  "vdbeSorterListToPMA cmp env pTask lst =
     (let (rc0, t0) =
            (if \<not> pFd (task_file pTask) then
               (if openRc env = SQLITE_OK
                then (SQLITE_OK, pTask\<lparr>task_file := (task_file pTask)\<lparr>pFd := True\<rparr>\<rparr>)
                else (openRc env, pTask))
             else (SQLITE_OK, pTask))
      in if rc0 \<noteq> SQLITE_OK then Some (rc0, t0, lst)
         else
           (case vdbeSorterSort cmp (allocOk env) t0 lst of
              None \<Rightarrow> None
            | Some (rc1, t1, lst1) \<Rightarrow>
                if rc1 \<noteq> SQLITE_OK then Some (rc1, t1, lst1)
                else
                  (let f = task_file t1;
                       f' = (if writeRc env = SQLITE_OK
                             then f\<lparr>iEof := iEof f + sqlite3VarintLen (szPMA lst1)
                                            + pma_bytes (pList lst1),
                                    pmas := pmas f @ [pList lst1]\<rparr>
                             else f\<lparr>iEof := failEof env\<rparr>)
                   in Some (writeRc env, t1\<lparr>nPMA := int32 (nPMA t1 + 1), task_file := f'\<rparr>,
                            lst1\<lparr>pList := []\<rparr>))))"

text \<open>
  \<open>struct MergeEngine\<close>, \<open>struct PmaReader\<close> and \<open>struct IncrMerger\<close>.
  \<^item> A merge engine has \<open>nTree\<close>, the array \<open>aTree\<close> and the readers \<open>aIter\<close>.
  \<^item> A reader has its current key \<open>aKey\<close> (\<open>None\<close> when the reader is at EOF: the code
    tests \<open>pFile==0\<close>, and \<open>pFile\<close> and \<open>aKey\<close> are null together), the records
    between \<open>iReadOff\<close> and \<open>iEof\<close> that it has not read yet, and \<open>pIncr\<close>.
  \<^item> An incremental merger has the engine it reads from, \<open>mxSz\<close>, \<open>bEof\<close>, and the
    records in \<open>aFile[0]\<close> and \<open>aFile[1]\<close>, each a region of \<open>mxSz\<close> bytes of the
    sub-task's second temp file.
\<close>

datatype MergeEngine = MergeEngine (nTree: nat) (aTree: "nat list") (aIter: "PmaReader list")
and PmaReader = PmaReader (aKey: "SorterRecord option") (rdData: "SorterRecord list")
                          (pIncr: "IncrMerger option")
and IncrMerger = IncrMerger (pMerger: MergeEngine) (mxSz: int) (bEof: bool)
                            (aFile0: "SorterRecord list") (aFile1: "SorterRecord list")

text \<open>
  \<open>struct Mem\<close> (vdbeInt.h) without its floating-point field, the flag bits, and
  \<open>struct UnpackedRecord\<close> as \<open>sqlite3VdbeSorterCompare\<close> reads it.
\<close>

record Mem =
  mem_i :: int
  mem_n :: int
  flags :: int
  mem_z :: string

definition MEM_Null :: int where "MEM_Null = 0x0001"
definition MEM_Str :: int where "MEM_Str = 0x0002"
definition MEM_Int :: int where "MEM_Int = 0x0004"

record UnpackedRecord =
  nField :: int
  aMem :: "Mem list"

text \<open>\<open>struct VdbeSorter\<close>, with \<open>aTask\<close> the one sub-task.\<close>

record VdbeSorter =
  mnPmaSize :: int
  mxPmaSize :: int
  mxKeysize :: int
  pgsz :: int
  sorterMerger :: "MergeEngine option"
  sorterUnpacked :: "UnpackedRecord option"
  list :: SorterList
  iMemory :: int
  nMemory :: int
  bUsePMA :: bool
  aTask :: SortSubtask

text \<open>\<open>vdbeSorterFlushPMA\<close> without worker threads.\<close>

definition vdbeSorterFlushPMA ::
  "(SorterRecord \<Rightarrow> SorterRecord \<Rightarrow> int) \<Rightarrow> SorterEnv \<Rightarrow> VdbeSorter \<Rightarrow> (int \<times> VdbeSorter) option" where
  "vdbeSorterFlushPMA cmp env pSorter =
     (case vdbeSorterListToPMA cmp env (aTask pSorter) (list pSorter) of
        None \<Rightarrow> None
      | Some (rc, t, l) \<Rightarrow> Some (rc, pSorter\<lparr>bUsePMA := True, aTask := t, list := l\<rparr>))"

text \<open>
  \<open>sqlite3Malloc\<close> and \<open>sqlite3Realloc\<close> (malloc.c) refuse a size that is not positive or
  is \<open>0x7fffff00\<close> or more, and otherwise pass the request on to the system allocator.
\<close>

definition sqlite3Malloc_ok :: "SorterEnv \<Rightarrow> int \<Rightarrow> bool" where
  "sqlite3Malloc_ok env n = (0 < n \<and> n < 0x7fffff00 \<and> mallocOk env)"

text \<open>
  \<open>sqlite3VdbeSorterWrite\<close>, in parts.
  \<^item> \<open>bFlush\<close> is the flag of that name, \<open>write_flush\<close> the first half of the function, up
    to the flush.
  \<^item> \<open>grow_nNew\<close> is the loop \<open>while( nNew < nMin ) nNew = nNew*2\<close>; it does not end once
    the doubling has wrapped to 0 below a positive \<open>nMin\<close>.
  \<^item> \<open>arena_grow\<close> is the block that enlarges the bulk memory.  A size that is not positive
    makes \<open>sqlite3Realloc\<close> free the bulk memory while the sorter keeps its address: that
    state is outside the model (\<open>None\<close>).
  \<^item> \<open>arena_store\<close> puts the record at offset \<open>iMemory\<close> of the bulk memory.  The header
    and the bytes must lie inside the allocation (\<open>None\<close> otherwise).  The record's
    \<open>iNext\<close> is the offset of the old head of the list, and a list in bulk memory ends at
    the record at offset 0 (\<open>vdbeSorterSort\<close> stops there): a record stored at offset 0
    is the whole list, whatever was linked before, and a record stored elsewhere on top
    of a null head starts a list that does not end (\<open>None\<close>).
  \<^item> \<open>write_append\<close> is the second half of the function.
\<close>

definition bFlush :: "SorterEnv \<Rightarrow> VdbeSorter \<Rightarrow> int \<Rightarrow> bool" where
  "bFlush env pSorter nReq =
     (if aMemory (list pSorter)
      then iMemory pSorter \<noteq> 0 \<and> int32 (iMemory pSorter + nReq) > mxPmaSize pSorter
      else szPMA (list pSorter) > mxPmaSize pSorter
           \<or> (szPMA (list pSorter) > mnPmaSize pSorter \<and> heapNearlyFull env))"

definition write_flush ::
  "(SorterRecord \<Rightarrow> SorterRecord \<Rightarrow> int) \<Rightarrow> SorterEnv \<Rightarrow> VdbeSorter \<Rightarrow> int
     \<Rightarrow> (int \<times> VdbeSorter) option" where
  "write_flush cmp env pSorter nReq =
     (if mxPmaSize pSorter \<noteq> 0 \<and> bFlush env pSorter nReq then
        (case vdbeSorterFlushPMA cmp env pSorter of
           None \<Rightarrow> None
         | Some (rc, s) \<Rightarrow> Some (rc, s\<lparr>list := (list s)\<lparr>szPMA := 0\<rparr>, iMemory := 0\<rparr>))
      else Some (SQLITE_OK, pSorter))"

partial_function (option) grow_nNew :: "int \<Rightarrow> int \<Rightarrow> int option" where
  "grow_nNew nNew nMin =
     (if nNew < nMin then grow_nNew (int32 (nNew * 2)) nMin else Some nNew)"

definition arena_grow :: "SorterEnv \<Rightarrow> VdbeSorter \<Rightarrow> int \<Rightarrow> (int \<times> VdbeSorter) option" where
  "arena_grow env s nMin =
     (case grow_nNew (int32 (nMemory s * 2)) nMin of
        None \<Rightarrow> None
      | Some n1 \<Rightarrow>
          (let n2 = (if n1 > mxPmaSize s then mxPmaSize s else n1);
               n3 = (if n2 < nMin then nMin else n2)
           in if n3 \<le> 0 then None
              else if n3 \<ge> 0x7fffff00 \<or> \<not> mallocOk env then Some (SQLITE_NOMEM, s)
              else Some (SQLITE_OK, s\<lparr>nMemory := n3\<rparr>)))"

definition arena_store :: "int \<Rightarrow> VdbeSorter \<Rightarrow> SorterRecord \<Rightarrow> int \<Rightarrow> (int \<times> VdbeSorter) option" where
  "arena_store rc s pVal nReq =
     (if \<not> (0 \<le> iMemory s \<and>
             iMemory s + sizeof_SorterRecord + int (length pVal) \<le> nMemory s) then None
      else if iMemory s \<noteq> 0 \<and> pList (list s) = [] then None
      else Some (rc, s\<lparr>iMemory := int32 (iMemory s + ROUND8 nReq),
                       list := (list s)\<lparr>pList := (if iMemory s = 0 then [pVal]
                                                    else pVal # pList (list s))\<rparr>\<rparr>))"

definition write_append :: "SorterEnv \<Rightarrow> int \<Rightarrow> VdbeSorter \<Rightarrow> SorterRecord \<Rightarrow> (int \<times> VdbeSorter) option" where
  "write_append env rc s1 pVal =
     (let nReq = int32 (int (length pVal) + sizeof_SorterRecord);
          nPMA' = int32 (int (length pVal) + sqlite3VarintLen (int (length pVal)));
          s2 = s1\<lparr>list := (list s1)\<lparr>szPMA := int32 (szPMA (list s1) + nPMA')\<rparr>,
                  mxKeysize := (if nPMA' > mxKeysize s1 then nPMA' else mxKeysize s1)\<rparr>
      in if aMemory (list s2) then
           (let nMin = int32 (iMemory s2 + nReq) in
            case (if nMin > nMemory s2 then arena_grow env s2 nMin else Some (SQLITE_OK, s2)) of
              None \<Rightarrow> None
            | Some (rc1, s3) \<Rightarrow>
                if rc1 \<noteq> SQLITE_OK then Some (rc1, s3) else arena_store rc s3 pVal nReq)
         else if \<not> sqlite3Malloc_ok env nReq then Some (SQLITE_NOMEM, s2)
         else Some (rc, s2\<lparr>list := (list s2)\<lparr>pList := pVal # pList (list s2)\<rparr>\<rparr>))"

definition sqlite3VdbeSorterWrite ::
  "(SorterRecord \<Rightarrow> SorterRecord \<Rightarrow> int) \<Rightarrow> SorterEnv \<Rightarrow> VdbeSorter \<Rightarrow> SorterRecord
     \<Rightarrow> (int \<times> VdbeSorter) option" where
  "sqlite3VdbeSorterWrite cmp env pSorter pVal =
     (case write_flush cmp env pSorter (int32 (int (length pVal) + sizeof_SorterRecord)) of
        None \<Rightarrow> None
      | Some (rc, s1) \<Rightarrow> write_append env rc s1 pVal)"

text \<open>
  \<open>sqlite3VdbeSorterInit\<close> without workers.  Its inputs: the page size, the cache size
  of the schema, whether temp storage is in memory, and whether scratch memory is
  configured.
\<close>

record SorterConfig =
  cfg_pgsz :: int
  cfg_cache_size :: int
  cfg_tempInMemory :: bool
  cfg_scratch :: bool

definition SORTER_MIN_WORKING :: int where "SORTER_MIN_WORKING = 10"

definition emptyFile :: SorterFile where
  "emptyFile = \<lparr>pFd = False, iEof = 0, pmas = []\<rparr>"

definition sqlite3VdbeSorterInit :: "SorterConfig \<Rightarrow> VdbeSorter" where
  "sqlite3VdbeSorterInit cfg =
     (let mxCache = (if cfg_cache_size cfg < SORTER_MIN_WORKING then SORTER_MIN_WORKING
                     else cfg_cache_size cfg);
          arena = (\<not> cfg_tempInMemory cfg \<and> \<not> cfg_scratch cfg)
      in \<lparr>mnPmaSize = (if cfg_tempInMemory cfg then 0 else int32 (SORTER_MIN_WORKING * cfg_pgsz cfg)),
          mxPmaSize = (if cfg_tempInMemory cfg then 0 else int32 (mxCache * cfg_pgsz cfg)),
          mxKeysize = 0,
          pgsz = cfg_pgsz cfg,
          sorterMerger = None,
          sorterUnpacked = None,
          list = \<lparr>pList = [], aMemory = arena, szPMA = 0\<rparr>,
          iMemory = 0,
          nMemory = (if arena then cfg_pgsz cfg else 0),
          bUsePMA = False,
          aTask = \<lparr>pUnpacked = None, errCode = 0, nPMA = 0, task_file = emptyFile,
                    task_file2 = emptyFile\<rparr>\<rparr>)"




text \<open>
  The flush condition in the spec's words: with a bulk-memory arena, \<open>used + n_req\<close>
  exceeds \<open>max_pma_size\<close>; without one, the list's PMA size exceeds \<open>max_pma_size\<close>, or
  exceeds \<open>min_pma_size\<close> while the heap-nearly-full hint is true.
\<close>

definition spec_flush_required :: "SorterEnv \<Rightarrow> VdbeSorter \<Rightarrow> int \<Rightarrow> bool" where
  "spec_flush_required env pSorter nReq =
     (if aMemory (list pSorter) then iMemory pSorter + nReq > mxPmaSize pSorter
      else szPMA (list pSorter) > mxPmaSize pSorter
           \<or> (szPMA (list pSorter) > mnPmaSize pSorter \<and> heapNearlyFull env))"

text \<open>
  The flush condition as the code has it, in the same words: the spec's condition, and
  also \<open>max_pma_size\<close> is not zero and, with a bulk-memory arena, \<open>used\<close> is not zero.
\<close>

definition flush_required :: "SorterEnv \<Rightarrow> VdbeSorter \<Rightarrow> SorterRecord \<Rightarrow> bool" where
  "flush_required env pSorter pVal =
     (mxPmaSize pSorter \<noteq> 0 \<and> (aMemory (list pSorter) \<longrightarrow> iMemory pSorter \<noteq> 0) \<and>
      spec_flush_required env pSorter (int (length pVal) + sizeof_SorterRecord))"

text \<open>
  The sizes for which the \<open>int\<close> arithmetic of a write stays in range and its loops end:
  the record and its header take at most \<open>2^29\<close> bytes, the list holds fewer than \<open>2^64\<close>
  records, and with bulk memory \<open>iMemory\<close> is not negative, \<open>iMemory\<close> plus the record
  and its header is at most \<open>2^29\<close>, \<open>nMemory\<close> is positive, and the list is not empty
  when \<open>iMemory\<close> is not zero.
\<close>

definition write_sizes_ok :: "VdbeSorter \<Rightarrow> SorterRecord \<Rightarrow> bool" where
  "write_sizes_ok pSorter pVal =
     (int (length pVal) + sizeof_SorterRecord \<le> 2^29 \<and>
      length (pList (list pSorter)) < 2^64 \<and>
      (aMemory (list pSorter) \<longrightarrow>
         0 \<le> iMemory pSorter \<and>
         iMemory pSorter + int (length pVal) + sizeof_SorterRecord \<le> 2^29 \<and>
         0 < nMemory pSorter \<and>
         (iMemory pSorter \<noteq> 0 \<longrightarrow> pList (list pSorter) \<noteq> [])))"

text \<open>
  A flush goes through: the temp file is open or can be opened, the allocations of the sort
  succeed, the scratch record, if it exists, holds no error code, and the PMA writer ends
  without an error.
\<close>

definition flush_env_ok :: "SorterEnv \<Rightarrow> SortSubtask \<Rightarrow> bool" where
  "flush_env_ok env pTask =
     ((pFd (task_file pTask) \<or> openRc env = SQLITE_OK) \<and> allocOk env \<and>
      (pUnpacked pTask \<noteq> None \<longrightarrow> errCode pTask = SQLITE_OK) \<and> writeRc env = SQLITE_OK)"

text \<open>Concrete inputs: environments, configurations, a comparison, records and states.\<close>

definition env_ok :: SorterEnv where
  "env_ok = \<lparr>heapNearlyFull = False, openRc = 0, allocOk = True, writeRc = 0, failEof = 0,
     mallocOk = True\<rparr>"

definition cfg0 :: SorterConfig where
  "cfg0 = \<lparr>cfg_pgsz = 512, cfg_cache_size = 10, cfg_tempInMemory = False, cfg_scratch = False\<rparr>"

definition cmp_len :: "SorterRecord \<Rightarrow> SorterRecord \<Rightarrow> int" where
  "cmp_len a b = int (length a) - int (length b)"




definition env_open_fails :: SorterEnv where
  "env_open_fails = env_ok\<lparr>openRc := SQLITE_IOERR\<rparr>"

definition big_record :: SorterRecord where
  "big_record = replicate 6000 CHR ''x''"

text \<open>The fields of the sub-task that comparing, merging and sorting leave alone.\<close>

definition task_frame :: "SortSubtask \<Rightarrow> SortSubtask \<Rightarrow> bool" where
  "task_frame t t' = (nPMA t' = nPMA t \<and> task_file t' = task_file t \<and> task_file2 t' = task_file2 t
     \<and> errCode t' = errCode t)"

definition c5_s :: VdbeSorter where
  "c5_s = \<lparr>mnPmaSize = 5120, mxPmaSize = 5120, mxKeysize = 6002, pgsz = 512,
     sorterMerger = None, sorterUnpacked = None, list = \<lparr>pList = [big_record], aMemory = False, szPMA = 6002\<rparr>,
     iMemory = 0, nMemory = 0, bUsePMA = False,
     aTask = \<lparr>pUnpacked = None, errCode = 0, nPMA = 0, task_file = emptyFile, task_file2 = emptyFile\<rparr>\<rparr>"

definition c5_s' :: VdbeSorter where
  "c5_s' = \<lparr>mnPmaSize = 5120, mxPmaSize = 5120, mxKeysize = 6002, pgsz = 512,
     sorterMerger = None, sorterUnpacked = None, list = \<lparr>pList = [''b''], aMemory = False, szPMA = 2\<rparr>,
     iMemory = 0, nMemory = 0, bUsePMA = True,
     aTask = \<lparr>pUnpacked = Some [], errCode = 0, nPMA = 1,
       task_file = \<lparr>pFd = True, iEof = 6004, pmas = [[big_record]]\<rparr>, task_file2 = emptyFile\<rparr>\<rparr>"

definition c5_b :: VdbeSorter where
  "c5_b = \<lparr>mnPmaSize = 5120, mxPmaSize = 5120, mxKeysize = 6002, pgsz = 512,
     sorterMerger = None, sorterUnpacked = None, list = \<lparr>pList = [big_record], aMemory = True, szPMA = 6002\<rparr>,
     iMemory = 6016, nMemory = 6016, bUsePMA = False,
     aTask = \<lparr>pUnpacked = None, errCode = 0, nPMA = 0, task_file = emptyFile, task_file2 = emptyFile\<rparr>\<rparr>"

subsection \<open>Building the tree of merge engines\<close>

text \<open>
  \<open>vdbeMergeEngineNew\<close>: \<open>mergeN\<close> is the loop \<open>while( N<nIter ) N += N\<close>, which starts
  at 2 (so that the test \<open>0 < N\<close>, which is not in the code, never fails); the engine is
  zero-filled.
\<close>

definition SORTER_MAX_MERGE_COUNT :: nat where "SORTER_MAX_MERGE_COUNT = 16"

function mergeN :: "nat \<Rightarrow> nat \<Rightarrow> nat" where
  "mergeN N nIter = (if N < nIter \<and> 0 < N then mergeN (N + N) nIter else N)"
  by pat_completeness auto
termination
  by (relation "measure (\<lambda>(N, nIter). nIter - N)") auto

declare mergeN.simps [simp del]

definition zeroReader :: PmaReader where
  "zeroReader = PmaReader None [] None"

definition vdbeMergeEngineNew :: "nat \<Rightarrow> MergeEngine" where
  "vdbeMergeEngineNew nIter =
     (let N = mergeN 2 nIter in MergeEngine N (replicate N 0) (replicate N zeroReader))"

text \<open>\<open>vdbeSorterTreeDepth\<close>; \<open>nDiv\<close> starts at 16, so it stays positive.\<close>

function vdbeSorterTreeDepth_loop :: "int \<Rightarrow> int \<Rightarrow> nat \<Rightarrow> nat" where
  "vdbeSorterTreeDepth_loop nDiv n nDepth =
     (if nDiv < n \<and> 0 < nDiv
      then vdbeSorterTreeDepth_loop (nDiv * int SORTER_MAX_MERGE_COUNT) n (nDepth + 1)
      else nDepth)"
  by pat_completeness auto
termination
  by (relation "measure (\<lambda>(nDiv, n, nDepth). nat (n - nDiv))")
     (auto simp: SORTER_MAX_MERGE_COUNT_def)

declare vdbeSorterTreeDepth_loop.simps [simp del]

definition vdbeSorterTreeDepth :: "int \<Rightarrow> nat" where
  "vdbeSorterTreeDepth n = vdbeSorterTreeDepth_loop (int SORTER_MAX_MERGE_COUNT) n 0"

text \<open>
  The depth of a tree of merge engines: the number of merge engines on the longest path
  from the root down through the incremental mergers.
\<close>

primrec engine_height :: "MergeEngine \<Rightarrow> nat"
  and reader_height :: "PmaReader \<Rightarrow> nat"
  and incr_height :: "IncrMerger \<Rightarrow> nat" where
  "engine_height (MergeEngine n t its) = Suc (foldr max (map reader_height its) 0)"
| "reader_height (PmaReader k d inc) = (case map_option incr_height inc of None \<Rightarrow> 0 | Some h \<Rightarrow> h)"
| "incr_height (IncrMerger m sz e f0 f1) = engine_height m"


text \<open>
  \<open>vdbeMergeEngineLevel0\<close>: an engine over the next \<open>n\<close> PMAs of the file, each reader
  placed on the first key of its PMA by \<open>vdbePmaReaderInit\<close>.  The PMAs not yet read are
  passed along in place of the file offset.  Asking for more PMAs than the file holds, or
  for more than 16, is an error (\<open>None\<close>).
\<close>

definition level0_reader :: "SorterRecord list \<Rightarrow> PmaReader" where
  "level0_reader pma = (case pma of [] \<Rightarrow> zeroReader | k # rest \<Rightarrow> PmaReader (Some k) rest None)"

definition vdbeMergeEngineLevel0 ::
  "SorterRecord list list \<Rightarrow> nat \<Rightarrow> (MergeEngine \<times> SorterRecord list list) option" where
  "vdbeMergeEngineLevel0 rest n =
     (if length rest < n \<or> SORTER_MAX_MERGE_COUNT < n then None
      else (let N = mergeN 2 n
            in Some (MergeEngine N (replicate N 0)
                       (map level0_reader (take n rest) @ replicate (N - n) zeroReader),
                     drop n rest)))"

text \<open>
  \<open>vdbeIncrNew\<close> (its \<open>mxSz\<close> is the argument \<open>sz\<close>) and \<open>vdbeSorterAddToTree\<close>:
  the loop walks down from the root, creating the missing engines, and the leaf's
  incremental merger is stored at the end of the path; the updates in place become a
  rebuilt path.  The first argument of the loop counts the iterations still to run.
\<close>

definition vdbeIncrNew :: "int \<Rightarrow> MergeEngine \<Rightarrow> IncrMerger" where
  "vdbeIncrNew sz m = IncrMerger m sz False [] []"

definition set_pIncr :: "PmaReader \<Rightarrow> IncrMerger option \<Rightarrow> PmaReader" where
  "set_pIncr r inc = PmaReader (aKey r) (rdData r) inc"

definition set_aIter :: "MergeEngine \<Rightarrow> PmaReader list \<Rightarrow> MergeEngine" where
  "set_aIter m its = MergeEngine (nTree m) (aTree m) its"

definition set_pMerger :: "IncrMerger \<Rightarrow> MergeEngine \<Rightarrow> IncrMerger" where
  "set_pMerger inc m = IncrMerger m (mxSz inc) (bEof inc) (aFile0 inc) (aFile1 inc)"

primrec addToTree_loop :: "int \<Rightarrow> nat \<Rightarrow> nat \<Rightarrow> nat \<Rightarrow> IncrMerger \<Rightarrow> MergeEngine \<Rightarrow> MergeEngine" where
  "addToTree_loop sz 0 nDiv iSeq leafIncr p =
     set_aIter p ((aIter p)[iSeq mod SORTER_MAX_MERGE_COUNT :=
        set_pIncr (aIter p ! (iSeq mod SORTER_MAX_MERGE_COUNT)) (Some leafIncr)])"
| "addToTree_loop sz (Suc k) nDiv iSeq leafIncr p =
     (let iIter = (iSeq div nDiv) mod SORTER_MAX_MERGE_COUNT;
          pIter = aIter p ! iIter;
          inc = (case pIncr pIter of
                   None \<Rightarrow> vdbeIncrNew sz (vdbeMergeEngineNew SORTER_MAX_MERGE_COUNT)
                 | Some i \<Rightarrow> i);
          child = addToTree_loop sz k (nDiv div SORTER_MAX_MERGE_COUNT) iSeq leafIncr (pMerger inc)
      in set_aIter p ((aIter p)[iIter := set_pIncr pIter (Some (set_pMerger inc child))]))"

definition vdbeSorterAddToTree :: "int \<Rightarrow> nat \<Rightarrow> nat \<Rightarrow> MergeEngine \<Rightarrow> MergeEngine \<Rightarrow> MergeEngine" where
  "vdbeSorterAddToTree sz nDepth iSeq pRoot pLeaf =
     addToTree_loop sz (nDepth - 1) (SORTER_MAX_MERGE_COUNT ^ (nDepth - 1)) iSeq
       (vdbeIncrNew sz pLeaf) pRoot"

text \<open>
  \<open>vdbeSorterMergeTreeBuild\<close> for the one sub-task; \<open>build_loop\<close> is its loop over groups
  of 16 PMAs.
\<close>

function build_loop ::
  "int \<Rightarrow> nat \<Rightarrow> nat \<Rightarrow> nat \<Rightarrow> nat \<Rightarrow> SorterRecord list list \<Rightarrow> MergeEngine \<Rightarrow> MergeEngine option" where
  "build_loop sz nDepth n i iSeq rest pRoot =
     (if i < n then
        (case vdbeMergeEngineLevel0 rest (min (n - i) SORTER_MAX_MERGE_COUNT) of
           None \<Rightarrow> None
         | Some (pLeaf, rest') \<Rightarrow>
             build_loop sz nDepth n (i + SORTER_MAX_MERGE_COUNT) (iSeq + 1) rest'
               (vdbeSorterAddToTree sz nDepth iSeq pRoot pLeaf))
      else Some pRoot)"
  by pat_completeness auto
termination
  by (relation "measure (\<lambda>(sz, nDepth, n, i, iSeq, rest, pRoot). n - i)")
     (auto simp: SORTER_MAX_MERGE_COUNT_def)

declare build_loop.simps [simp del]

definition vdbeSorterMergeTreeBuild :: "int \<Rightarrow> SortSubtask \<Rightarrow> MergeEngine option" where
  "vdbeSorterMergeTreeBuild sz pTask =
     (let n = nat (nPMA pTask) in
      if n = 0 then None
      else if n \<le> SORTER_MAX_MERGE_COUNT
      then map_option fst (vdbeMergeEngineLevel0 (pmas (task_file pTask)) n)
      else build_loop sz (vdbeSorterTreeDepth (nPMA pTask)) n 0 0 (pmas (task_file pTask))
             (vdbeMergeEngineNew SORTER_MAX_MERGE_COUNT))"

text \<open>A sub-task whose file holds \<open>n\<close> PMAs of one record each.\<close>

definition pma_task :: "nat \<Rightarrow> SortSubtask" where
  "pma_task n = \<lparr>pUnpacked = None, errCode = 0, nPMA = int n,
     task_file = \<lparr>pFd = True, iEof = 0, pmas = replicate n [''k'']\<rparr>, task_file2 = emptyFile\<rparr>"


text \<open>
  Shapes of trees: an engine all of whose readers read PMAs; an engine below which every
  path has exactly \<open>d\<close> further engines; an engine with 16 readers all of whose children
  are of the second kind.
\<close>

definition leaf_engine :: "MergeEngine \<Rightarrow> bool" where
  "leaf_engine e = (\<forall>r \<in> set (aIter e). pIncr r = None)"

primrec levels_exactly :: "nat \<Rightarrow> MergeEngine \<Rightarrow> bool" where
  "levels_exactly 0 e = leaf_engine e"
| "levels_exactly (Suc d) e =
     (length (aIter e) = SORTER_MAX_MERGE_COUNT \<and>
      (\<forall>r \<in> set (aIter e). case pIncr r of None \<Rightarrow> True | Some inc \<Rightarrow> levels_exactly d (pMerger inc)) \<and>
      (\<exists>r \<in> set (aIter e). pIncr r \<noteq> None))"

definition children_at :: "nat \<Rightarrow> MergeEngine \<Rightarrow> bool" where
  "children_at d e =
     (length (aIter e) = SORTER_MAX_MERGE_COUNT \<and>
      (\<forall>r \<in> set (aIter e). case pIncr r of None \<Rightarrow> True | Some inc \<Rightarrow> levels_exactly d (pMerger inc)))"


subsection \<open>Reading the current key\<close>

text \<open>
  \<open>vdbeSorterRowkey\<close>: the key of the reader that \<open>aTree[1]\<close> names, or the head of the
  in-memory list; \<open>None\<close> when there is no current key to point to.
\<close>

definition vdbeSorterRowkey :: "VdbeSorter \<Rightarrow> SorterRecord option" where
  "vdbeSorterRowkey pSorter =
     (if bUsePMA pSorter then
        (case sorterMerger pSorter of
           None \<Rightarrow> None
         | Some m \<Rightarrow> aKey (aIter m ! (aTree m ! 1)))
      else (case pList (list pSorter) of [] \<Rightarrow> None | r # _ \<Rightarrow> Some r))"

text \<open>
  The loop of \<open>sqlite3VdbeSorterCompare\<close> over the first \<open>nField\<close> entries of \<open>aMem\<close>;
  \<open>None\<close> when \<open>aMem\<close> is shorter than that.
\<close>

fun any_null :: "nat \<Rightarrow> Mem list \<Rightarrow> bool option" where
  "any_null 0 ms = Some False"
| "any_null (Suc k) [] = None"
| "any_null (Suc k) (m # ms) = (if flags m AND MEM_Null \<noteq> 0 then Some True else any_null k ms)"

text \<open>
  \<open>sqlite3VdbeSorterCompare\<close>.  The host's \<open>sqlite3VdbeRecordUnpack\<close> and
  \<open>sqlite3VdbeRecordCompare\<close> are the parameters \<open>unpack\<close> and \<open>rcmp\<close>; \<open>ok\<close> tells
  whether the allocation succeeds, \<open>keyFields\<close> is \<open>pCsr->pKeyInfo->nField\<close>, and the last
  argument is the content of \<open>*pRes\<close> at the call.  The result is the return code, the
  content of \<open>*pRes\<close> and the sorter.
\<close>

definition sqlite3VdbeSorterCompare ::
  "(SorterRecord \<Rightarrow> UnpackedRecord \<Rightarrow> UnpackedRecord) \<Rightarrow> (SorterRecord \<Rightarrow> UnpackedRecord \<Rightarrow> int)
     \<Rightarrow> bool \<Rightarrow> int \<Rightarrow> VdbeSorter \<Rightarrow> SorterRecord \<Rightarrow> int \<Rightarrow> int
     \<Rightarrow> (int \<times> int \<times> VdbeSorter) option" where
  "sqlite3VdbeSorterCompare unpack rcmp ok keyFields pSorter pVal nIgnore pRes =
     (case (case sorterUnpacked pSorter of
              None \<Rightarrow> if ok then Some \<lparr>nField = keyFields - nIgnore, aMem = []\<rparr> else None
            | Some r \<Rightarrow> Some r) of
        None \<Rightarrow> Some (SQLITE_NOMEM, pRes, pSorter)
      | Some r2 \<Rightarrow>
          (case vdbeSorterRowkey pSorter of
             None \<Rightarrow> None
           | Some pKey \<Rightarrow>
               (let r2' = unpack pKey r2; s = pSorter\<lparr>sorterUnpacked := Some r2'\<rparr> in
                case any_null (nat (nField r2')) (aMem r2') of
                  None \<Rightarrow> None
                | Some True \<Rightarrow> Some (SQLITE_OK, -1, s)
                | Some False \<Rightarrow> Some (SQLITE_OK, rcmp pVal r2', s))))"

text \<open>
  A small record format to run the comparison on: every byte of a record is one field, the
  byte 0 is NULL and any other byte is the integer of its code; records compare field by
  field.
\<close>

definition toy_mem :: "char \<Rightarrow> Mem" where
  "toy_mem c = (if of_char c = (0::nat) then \<lparr>mem_i = 0, mem_n = 0, flags = MEM_Null, mem_z = []\<rparr>
                else \<lparr>mem_i = int (of_char c), mem_n = 0, flags = MEM_Int, mem_z = []\<rparr>)"

definition toy_unpack :: "SorterRecord \<Rightarrow> UnpackedRecord \<Rightarrow> UnpackedRecord" where
  "toy_unpack k r = \<lparr>nField = min (nField r) (int (length k)),
                     aMem = map toy_mem (take (nat (nField r)) k)\<rparr>"

fun lex_cmp :: "int list \<Rightarrow> int list \<Rightarrow> int" where
  "lex_cmp [] [] = 0"
| "lex_cmp [] (y # ys) = -1"
| "lex_cmp (x # xs) [] = 1"
| "lex_cmp (x # xs) (y # ys) = (if x < y then -1 else if y < x then 1 else lex_cmp xs ys)"

definition toy_rcmp :: "SorterRecord \<Rightarrow> UnpackedRecord \<Rightarrow> int" where
  "toy_rcmp v r = lex_cmp (map (\<lambda>c. int (of_char c)) (take (nat (nField r)) v)) (map mem_i (aMem r))"

text \<open>A sorter whose in-memory list starts with the record \<open>k\<close>.\<close>

definition sorter_on :: "SorterRecord \<Rightarrow> VdbeSorter" where
  "sorter_on k = (sqlite3VdbeSorterInit cfg0)\<lparr>list := \<lparr>pList = [k], aMemory = True, szPMA = 2\<rparr>\<rparr>"

subsection \<open>The comparison opcodes of the emitter\<close>

lemma emit_simps [simp]:
  "file_format (emit p opc x y) = file_format p"
  "(pVdbe (emit p opc x y) = None) = (pVdbe p = None)"
  by (simp_all add: emit_def)

lemma with_vdbe_simps [simp]:
  "file_format (with_vdbe p f) = file_format p"
  "(pVdbe (with_vdbe p f) = None) = (pVdbe p = None)"
  by (simp_all add: with_vdbe_def)

lemma code_literal_simps [simp]:
  "file_format (code_literal h p i z k d) = file_format p"
  "(pVdbe (code_literal h p i z k d) = None) = (pVdbe p = None)"
  by (simp_all add: code_literal_def Let_def)

lemma errorMsg_simps [simp]:
  "file_format (sqlite3ErrorMsg p m) = file_format p"
  "pVdbe (sqlite3ErrorMsg p m) = pVdbe p"
  by (simp_all add: sqlite3ErrorMsg_def)

lemma last_op_emit:
  "pVdbe p \<noteq> None \<Longrightarrow> last_op (emit p opc x y) = Some \<lparr>opcode = opc, op_p1 = x, op_p2 = y, op_p3 = P3_NOTUSED\<rparr>"
  by (auto simp: last_op_def emit_def sqlite3VdbeAddOp_def)

lemma bind_eq_Some_conv2: "(Option.bind x f = Some y) = (\<exists>z. x = Some z \<and> f z = Some y)"
  by (cases x) auto

lemmas emit_defs = emit_def with_vdbe_def code_literal_def Let_def sqlite3ErrorMsg_def

lemma frameD:
  "code_frame_expr e \<Longrightarrow> sqlite3ExprCode h p e = Some p' \<Longrightarrow>
     file_format p' = file_format p \<and> (pVdbe p' = None) = (pVdbe p = None)"
  by (simp add: code_frame_expr_def code_frame_def)

lemma frame_expr_step:
  assumes L: "code_frame_expr l" and R: "code_frame_expr rt" and LS: "code_frame_list lst"
  shows "code_frame_expr (Expr a r l rt lst sel)"
  unfolding code_frame_expr_def code_frame_def
proof (intro allI impI)
  fix h p p'
  assume A: "sqlite3ExprCode h p (Expr a r l rt lst sel) = Some p'"
  note dl = frameD [OF L] and dr = frameD [OF R]
  have dlist: "\<And>hh q incl q' la na arr its. codeExprList hh q its incl = Some q' \<Longrightarrow> lst = ExprList la na arr its \<Longrightarrow>
      file_format q' = file_format q \<and> (pVdbe q' = None) = (pVdbe q = None)"
    using LS by (auto simp: code_frame_list_def code_frame_items_def code_frame_case_def code_frame_def)
  have dcase: "\<And>hh q hl lbl q' la na arr its. codeCase hh q hl lbl its = Some q' \<Longrightarrow> lst = ExprList la na arr its \<Longrightarrow>
      file_format q' = file_format q \<and> (pVdbe q' = None) = (pVdbe q = None)"
    using LS by (auto simp: code_frame_list_def code_frame_items_def code_frame_case_def code_frame_def)
  have de0: "\<And>hh q q' la na arr i0 e0 rest. sqlite3ExprCode hh q e0 = Some q' \<Longrightarrow> lst = ExprList la na arr (ItemCons i0 e0 rest) \<Longrightarrow>
      file_format q' = file_format q \<and> (pVdbe q' = None) = (pVdbe q = None)"
    using LS by (auto simp: code_frame_list_def code_frame_items_def code_frame_def code_frame_expr_def)
  have de1: "\<And>hh q q' la na arr i0 e0 i1 e1 rest. sqlite3ExprCode hh q e1 = Some q' \<Longrightarrow> lst = ExprList la na arr (ItemCons i0 e0 (ItemCons i1 e1 rest)) \<Longrightarrow>
      file_format q' = file_format q \<and> (pVdbe q' = None) = (pVdbe q = None)"
    using LS by (auto simp: code_frame_list_def code_frame_items_def code_frame_def code_frame_expr_def)
  show "file_format p' = file_format p \<and> (pVdbe p' = None) = (pVdbe p = None)"
  proof (cases "pVdbe p = None")
    case True
    then show ?thesis using A by simp
  next
    case False
    consider (between) "op r = TK_BETWEEN" | (tcase) "op r = TK_CASE"
      | (unary) "op r \<in> {TK_UMINUS, TK_BITNOT, TK_NOT}"
      | (func) "op r \<in> {TK_GLOB, TK_LIKE, TK_FUNCTION}"
      | (traise) "op r = TK_RAISE"
      | (lit) "op r \<in> {TK_STRING, TK_FLOAT, TK_INTEGER}"
      | (other) "op r \<notin> {TK_BETWEEN, TK_CASE, TK_UMINUS, TK_BITNOT, TK_NOT, TK_GLOB, TK_LIKE,
                         TK_FUNCTION, TK_RAISE, TK_STRING, TK_FLOAT, TK_INTEGER}"
      by blast
    then show ?thesis
    proof cases
      case between
      from A False between obtain la na arr i0 e0 i1 e1 rest q1 q2 q3 where
        lst: "lst = ExprList la na arr (ItemCons i0 e0 (ItemCons i1 e1 rest))" and
        q1: "sqlite3ExprCode h p l = Some q1" and
        q2: "sqlite3ExprCode h (emit q1 (opnum h OP_Dup) 0 0) e0 = Some q2" and
        q3: "sqlite3ExprCode h (emit (emit q2 (opnum h OP_Ge) 0 0) (opnum h OP_Pull) 1 0) e1 = Some q3" and
        p': "p' = emit (emit q3 (opnum h OP_Le) 0 0) (opnum h OP_And) 0 0"
        by (auto simp: is_comparison_def bind_eq_Some_conv2
                 split: ExprList.split_asm ExprItems.split_asm)
      from dl [OF q1] de0 [OF q2 lst] de1 [OF q3 lst] p' show ?thesis by simp
    next
      case tcase
      from A False tcase obtain la na arr its where lst: "lst = ExprList la na arr its"
        by (cases lst) (auto simp: is_comparison_def)
      from False obtain v where v: "pVdbe p = Some v" by auto
      obtain lbl v1 where mk: "sqlite3VdbeMakeLabel v = (lbl, v1)"
        by (cases "sqlite3VdbeMakeLabel v")
      from A tcase lst v mk obtain q1 q2 q4 where
        q1: "sqlite3ExprCode h (p\<lparr>pVdbe := Some v1\<rparr>) l = Some q1" and
        q2: "codeCase h q1 (l \<noteq> NullExpr) lbl its = Some q2" and
        q4: "(if rt \<noteq> NullExpr
              then sqlite3ExprCode h (if l \<noteq> NullExpr then emit q2 (opnum h OP_Pop) 1 0 else q2) rt
              else Some (emit (if l \<noteq> NullExpr then emit q2 (opnum h OP_Pop) 1 0 else q2)
                           (opnum h OP_String) 0 0)) = Some q4" and
        p': "p' = with_vdbe q4 (\<lambda>v'. sqlite3VdbeResolveLabel v' lbl)"
        by (auto simp: is_comparison_def bind_eq_Some_conv2 Let_def)
      have f4: "file_format q4 = file_format q2 \<and> (pVdbe q4 = None) = (pVdbe q2 = None)"
        using q4 by (auto simp: emit_def dest!: dr split: if_split_asm)
      from dl [OF q1] dcase [OF q2 lst] f4 p' False show ?thesis by auto
    next
      case unary
      show ?thesis
      proof (cases l)
        case NullExpr
        with A False unary show ?thesis
          by (auto simp: is_comparison_def emit_defs split: if_split_asm)
      next
        case (Expr la lr ll lrt llst lsel)
        have "(if op r = TK_UMINUS \<and> (op lr = TK_FLOAT \<or> op lr = TK_INTEGER)
               then case tz (token lr) of None \<Rightarrow> None
                    | Some (xa, z) \<Rightarrow>
                        Some (code_literal h p (op lr = TK_INTEGER)
                           (CHR ''-'' # take (tn (token lr)) z) (tn (token lr) + 1) False)
               else sqlite3ExprCode h p l \<bind>
                    (\<lambda>q1. Some (emit q1 (exprCode_op h (op r)) 0 0))) = Some p'"
          using A False unary unfolding Expr
          by (subst (asm) sqlite3ExprCode.simps(2)) (auto simp: is_comparison_def simp del: sqlite3ExprCode.simps)
        then show ?thesis
          by (auto simp: bind_eq_Some_conv2 emit_defs dest!: dl split: if_split_asm option.split_asm)
      qed
    next
      case func
      from A False func obtain pDef q1 where
        q1: "(case lst of NullExprList \<Rightarrow> Some p
              | ExprList la na arr its \<Rightarrow> codeExprList h p its (includeTypes pDef)) = Some q1" and
        p': "p' = with_vdbe (emit q1 (opnum h OP_Function)
                     (case lst of NullExprList \<Rightarrow> 0
                      | ExprList la na arr its \<Rightarrow>
                          if includeTypes pDef then 2 * int (nExpr its) else int (nExpr its)) 0)
                  (\<lambda>v. set_last_p3 v (\<lambda>_. P3_POINTER pDef))"
        by (auto simp: is_comparison_def bind_eq_Some_conv2)
      have "file_format q1 = file_format p \<and> (pVdbe q1 = None) = (pVdbe p = None)"
        using q1 by (cases lst) (auto dest: dlist)
      with p' show ?thesis by (auto simp: emit_defs)
    next
      case traise
      with A False show ?thesis
        by (auto simp: is_comparison_def emit_defs split: option.split_asm if_split_asm)
    next
      case lit
      with A False show ?thesis
        by (auto simp: is_comparison_def emit_defs split: option.split_asm)
    next
      case other
      with A False show ?thesis
        by (cases "op r"; clarsimp simp: is_comparison_def bind_eq_Some_conv2 emit_defs dest!: dl dr)
    qed
  qed
qed

lemma frame_items_step:
  assumes E: "code_frame_expr e" and R: "code_frame_items rest"
  shows "code_frame_items (ItemCons ir e rest)"
proof -
  note de = frameD [OF E]
  have dlist: "\<And>h p incl p'. codeExprList h p rest incl = Some p' \<Longrightarrow>
      file_format p' = file_format p \<and> (pVdbe p' = None) = (pVdbe p = None)"
    using R by (auto simp: code_frame_items_def code_frame_def)
  have a: "\<forall>h p incl p'. codeExprList h p (ItemCons ir e rest) incl = Some p' \<longrightarrow> code_frame p p'"
    by (auto simp: bind_eq_Some_conv2 code_frame_def emit_defs dest!: de dlist split: if_split_asm)
  have b: "code_frame_case (ItemCons ir e rest)"
  proof (cases rest)
    case ItemNil
    then show ?thesis by (simp add: code_frame_case_def)
  next
    case (ItemCons i1 t rest')
    with R have T: "code_frame_expr t" and C: "code_frame_case rest'"
      by (auto simp: code_frame_items_def)
    note dt = frameD [OF T]
    have dc: "\<And>h p hl lbl p'. codeCase h p hl lbl rest' = Some p' \<Longrightarrow>
        file_format p' = file_format p \<and> (pVdbe p' = None) = (pVdbe p = None)"
      using C by (auto simp: code_frame_case_def code_frame_def)
    show ?thesis
      unfolding ItemCons code_frame_case_def code_frame_def
      by (auto simp: bind_eq_Some_conv2 emit_defs dest!: de dt dc split: if_split_asm)
  qed
  from a b E R show ?thesis
    by (auto simp: code_frame_items_def)
qed

lemma code_frame_all:
  fixes e :: Expr and lst :: ExprList and its :: ExprItems
    and sel :: Select and src :: SrcList and si :: SrcItems
  shows "code_frame_expr e" and "code_frame_list lst" and "code_frame_items its"
    and "sel = sel" and "src = src" and "si = si"
proof (induction e and lst and its and sel and src and si)
  case NullExpr
  then show ?case by (simp add: code_frame_expr_def code_frame_def)
next
  case (Expr a r l rt lst sel)
  then show ?case by (simp add: frame_expr_step)
next
  case NullExprList
  then show ?case by (simp add: code_frame_list_def)
next
  case (ExprList a n al its)
  then show ?case by (simp add: code_frame_list_def)
next
  case ItemNil
  then show ?case by (simp add: code_frame_items_def code_frame_case_def code_frame_def)
next
  case (ItemCons ir e rest)
  then show ?case by (simp add: frame_items_step)
qed simp_all

lemma sqlite3ExprCode_frame:
  "sqlite3ExprCode h p e = Some p' \<Longrightarrow>
     file_format p' = file_format p \<and> (pVdbe p' = None) = (pVdbe p = None)"
  using code_frame_all(1) [of e] by (rule frameD)

lemma comparison_ops:
  "is_comparison k \<Longrightarrow> exprCode_op h k = cmp_opcode h k"
  "is_comparison k \<Longrightarrow> ifTrue_op h k = cmp_opcode h k"
  "is_comparison k \<Longrightarrow> ifFalse_op h k = cmp_opcode_negated h k"
  by (auto simp: is_comparison_def exprCode_op_def ifTrue_op_def ifFalse_op_def
                 cmp_opcode_def cmp_opcode_negated_def)

lemma comparison_not_other:
  "is_comparison k \<Longrightarrow> k \<noteq> TK_COLUMN \<and> k \<notin> {TK_STRING, TK_FLOAT, TK_INTEGER} \<and> k \<noteq> TK_NULL \<and>
     k \<noteq> TK_VARIABLE \<and> k \<noteq> TK_AND \<and> k \<noteq> TK_OR \<and> k \<noteq> TK_NOT"
  by (auto simp: is_comparison_def)

lemma text_affinity_Some:
  "text_affinity p e = Some t \<Longrightarrow> (if t then n + 6 else n) = affinity_biased p e n"
  by (auto simp: text_affinity_def affinity_biased_def split: if_split_asm)

lemma text_affinity_defined:
  assumes "file_format p \<ge> 4 \<longrightarrow> sqlite3ExprType e \<noteq> None"
  shows "\<exists>b. text_affinity p e = Some b"
proof (cases "file_format p \<ge> 4")
  case True
  with assms obtain y where "sqlite3ExprType e = Some y" by blast
  with True show ?thesis by (simp add: text_affinity_def)
next
  case False
  then show ?thesis by (auto simp: text_affinity_def)
qed

lemma exprCode_comparison:
  assumes c: "is_comparison (op r)" and v: "pVdbe p \<noteq> None"
    and q1: "sqlite3ExprCode h p l = Some q1" and q2: "sqlite3ExprCode h q1 rt = Some q2"
    and t: "file_format p \<ge> 4 \<longrightarrow> sqlite3ExprType (Expr a r l rt lst sel) \<noteq> None"
  shows "sqlite3ExprCode h p (Expr a r l rt lst sel) =
           Some (emit q2 (affinity_biased p (Expr a r l rt lst sel) (cmp_opcode h (op r))) 0 0)"
proof -
  from text_affinity_defined [OF t] obtain b where
    b: "text_affinity p (Expr a r l rt lst sel) = Some b" by blast
  from c v comparison_not_other [OF c] b q1 q2 text_affinity_Some [OF b, of "exprCode_op h (op r)"]
  show ?thesis
    by (auto simp: comparison_ops [OF c] simp del: sqlite3ExprType.simps)
qed

lemma exprIfTrue_comparison:
  assumes c: "is_comparison (op r)" and v: "pVdbe p \<noteq> None"
    and q1: "sqlite3ExprCode h p l = Some q1" and q2: "sqlite3ExprCode h q1 rt = Some q2"
    and t: "file_format p \<ge> 4 \<longrightarrow> sqlite3ExprType (Expr a r l rt lst sel) \<noteq> None"
  shows "sqlite3ExprIfTrue h p (Expr a r l rt lst sel) dest jumpIfNull =
           Some (emit q2 (affinity_biased p (Expr a r l rt lst sel) (cmp_opcode h (op r)))
                   jumpIfNull dest)"
proof -
  from sqlite3ExprCode_frame [OF q1] sqlite3ExprCode_frame [OF q2]
  have f: "file_format q2 = file_format p" by simp
  with t have "file_format q2 \<ge> 4 \<longrightarrow> sqlite3ExprType (Expr a r l rt lst sel) \<noteq> None"
    by simp
  from text_affinity_defined [OF this] obtain b where
    b: "text_affinity q2 (Expr a r l rt lst sel) = Some b" by blast
  from f have "affinity_biased q2 (Expr a r l rt lst sel) = affinity_biased p (Expr a r l rt lst sel)"
    by (simp add: affinity_biased_def fun_eq_iff)
  with c v comparison_not_other [OF c] b q1 q2 text_affinity_Some [OF b, of "ifTrue_op h (op r)"]
  show ?thesis
    by (auto simp: comparison_ops [OF c] simp del: sqlite3ExprType.simps)
qed

lemma exprIfFalse_comparison:
  assumes c: "is_comparison (op r)" and v: "pVdbe p \<noteq> None"
    and q1: "sqlite3ExprCode h p l = Some q1" and q2: "sqlite3ExprCode h q1 rt = Some q2"
    and t: "file_format p \<ge> 4 \<longrightarrow> sqlite3ExprType (Expr a r l rt lst sel) \<noteq> None"
  shows "sqlite3ExprIfFalse h p (Expr a r l rt lst sel) dest jumpIfNull =
           Some (emit q2 (affinity_biased p (Expr a r l rt lst sel) (cmp_opcode_negated h (op r)))
                   jumpIfNull dest)"
proof -
  from text_affinity_defined [OF t] obtain b where
    b: "text_affinity p (Expr a r l rt lst sel) = Some b" by blast
  from c v comparison_not_other [OF c] b q1 q2 text_affinity_Some [OF b, of "ifFalse_op h (op r)"]
  show ?thesis
    by (auto simp: comparison_ops [OF c] simp del: sqlite3ExprType.simps)
qed

lemma operands_program:
  assumes v: "pVdbe p \<noteq> None"
    and q1: "sqlite3ExprCode h p l = Some q1" and q2: "sqlite3ExprCode h q1 rt = Some q2"
  shows "pVdbe q2 \<noteq> None"
  using sqlite3ExprCode_frame [OF q1] sqlite3ExprCode_frame [OF q2] v by simp

text \<open>
  Claim C4.  Take a comparison node (LT, LE, GT, GE, NE, EQ), a parse context that has a
  program, operands whose code generation returns (\<open>q2\<close> is the context after both), and,
  when the file format is at least 4, a type inference that ends.  Then each of the three
  emitters returns, and what it returns is \<open>q2\<close> with one more instruction: in value form
  (\<open>sqlite3ExprCode\<close>) and in jump-if-true form (\<open>sqlite3ExprIfTrue\<close>) the numeric opcode of
  the operator, in jump-if-false form (\<open>sqlite3ExprIfFalse\<close>) the numeric opcode of the
  negated operator, plus 6 exactly when the file format is at least 4 and \<open>sqlite3ExprType\<close>
  of the whole comparison is text, and unchanged otherwise; the operands are 0, 0 in value
  form and the null-jump flag and the target in the branch forms.
\<close>

theorem C4_comparison_opcode:
  assumes "is_comparison (op r)" and "pVdbe p \<noteq> None"
    and "sqlite3ExprCode h p l = Some q1" and "sqlite3ExprCode h q1 rt = Some q2"
    and "file_format p \<ge> 4 \<longrightarrow> sqlite3ExprType (Expr a r l rt lst sel) \<noteq> None"
  shows "sqlite3ExprCode h p (Expr a r l rt lst sel) =
           Some (emit q2 (affinity_biased p (Expr a r l rt lst sel) (cmp_opcode h (op r))) 0 0) \<and>
         last_op (emit q2 (affinity_biased p (Expr a r l rt lst sel) (cmp_opcode h (op r))) 0 0) =
           Some \<lparr>opcode = affinity_biased p (Expr a r l rt lst sel) (cmp_opcode h (op r)),
                 op_p1 = 0, op_p2 = 0, op_p3 = P3_NOTUSED\<rparr> \<and>
         sqlite3ExprIfTrue h p (Expr a r l rt lst sel) dest jumpIfNull =
           Some (emit q2 (affinity_biased p (Expr a r l rt lst sel) (cmp_opcode h (op r)))
                   jumpIfNull dest) \<and>
         last_op (emit q2 (affinity_biased p (Expr a r l rt lst sel) (cmp_opcode h (op r)))
                   jumpIfNull dest) =
           Some \<lparr>opcode = affinity_biased p (Expr a r l rt lst sel) (cmp_opcode h (op r)),
                 op_p1 = jumpIfNull, op_p2 = dest, op_p3 = P3_NOTUSED\<rparr> \<and>
         sqlite3ExprIfFalse h p (Expr a r l rt lst sel) dest jumpIfNull =
           Some (emit q2 (affinity_biased p (Expr a r l rt lst sel) (cmp_opcode_negated h (op r)))
                   jumpIfNull dest) \<and>
         last_op (emit q2 (affinity_biased p (Expr a r l rt lst sel) (cmp_opcode_negated h (op r)))
                   jumpIfNull dest) =
           Some \<lparr>opcode = affinity_biased p (Expr a r l rt lst sel) (cmp_opcode_negated h (op r)),
                 op_p1 = jumpIfNull, op_p2 = dest, op_p3 = P3_NOTUSED\<rparr> \<and>
         (\<forall>n. affinity_biased p (Expr a r l rt lst sel) n =
            (if file_format p \<ge> 4 \<and> sqlite3ExprType (Expr a r l rt lst sel) = Some SQLITE_SO_TEXT
             then n + 6 else n))"
proof -
  note q = operands_program [OF assms(2,3,4)]
  from exprCode_comparison [OF assms] exprIfTrue_comparison [OF assms]
    exprIfFalse_comparison [OF assms] last_op_emit [OF q]
  show ?thesis
    by (simp add: affinity_biased_def del: sqlite3ExprCode.simps sqlite3ExprIfTrue.simps
          sqlite3ExprIfFalse.simps sqlite3ExprType.simps)
qed

lemma text_lt_type: "sqlite3ExprType text_lt = Some SQLITE_SO_TEXT"
  by (simp add: text_lt_def text_lt_left_def text_lt_right_def leafExpr_def mkRec_def
        SQLITE_SO_TEXT_def SQLITE_SO_NUM_def)

lemmas literal_eval = leafExpr_def mkRec_def mkToken_def nullToken_def parse0_def host0_def
  opnum0_def emit_defs sqlite3VdbeAddOp_def set_last_p3_def sqlite3VdbeChangeP3_def
  sqlite3VdbeDequoteP3_def

lemma text_lt_operands:
  "sqlite3ExprCode host0 (parse0 4) text_lt_left = Some text_lt_q1"
  "sqlite3ExprCode host0 text_lt_q1 text_lt_right = Some text_lt_q2"
  by (simp_all add: text_lt_left_def text_lt_right_def text_lt_q1_def text_lt_q2_def literal_eval
        sqlite3Dequote_def)

theorem C4_comparison_opcode_witness:
  "is_comparison (op (mkRec TK_LT nullToken)) \<and> pVdbe (parse0 4) \<noteq> None \<and>
   sqlite3ExprCode host0 (parse0 4) text_lt_left = Some text_lt_q1 \<and>
   sqlite3ExprCode host0 text_lt_q1 text_lt_right = Some text_lt_q2 \<and>
   sqlite3ExprType text_lt \<noteq> None \<and>
   sqlite3ExprCode host0 (parse0 4) text_lt = Some (emit text_lt_q2 (opnum host0 OP_Lt + 6) 0 0) \<and>
   sqlite3ExprIfTrue host0 (parse0 4) text_lt 9 1 =
     Some (emit text_lt_q2 (opnum host0 OP_Lt + 6) 1 9) \<and>
   sqlite3ExprIfFalse host0 (parse0 4) text_lt 9 1 =
     Some (emit text_lt_q2 (opnum host0 OP_Ge + 6) 1 9) \<and>
   last_op (emit text_lt_q2 (opnum host0 OP_Ge + 6) 1 9) =
     Some \<lparr>opcode = 10, op_p1 = 1, op_p2 = 9, op_p3 = P3_NOTUSED\<rparr>"
proof -
  have c: "is_comparison (op (mkRec TK_LT nullToken))"
    by (simp add: mkRec_def is_comparison_def)
  have v: "pVdbe (parse0 4) \<noteq> None"
    by (simp add: parse0_def)
  have t: "file_format (parse0 4) \<ge> 4 \<longrightarrow>
             sqlite3ExprType (Expr 1 (mkRec TK_LT nullToken) text_lt_left text_lt_right
                NullExprList NullSelect) \<noteq> None"
    using text_lt_type by (simp add: text_lt_def)
  have o: "op (mkRec TK_LT nullToken) = TK_LT" by (simp add: mkRec_def)
  have b: "affinity_biased (parse0 4) text_lt n = n + 6" for n
    by (simp add: affinity_biased_def text_lt_type parse0_def)
  from C4_comparison_opcode [OF c v text_lt_operands t, where dest = 9 and jumpIfNull = 1,
      folded text_lt_def] c v text_lt_operands text_lt_type
  show ?thesis
    by (simp add: o b cmp_opcode_def cmp_opcode_negated_def host0_def opnum0_def
          del: sqlite3ExprCode.simps sqlite3ExprIfTrue.simps sqlite3ExprIfFalse.simps
          sqlite3ExprType.simps)
qed

section \<open>Properties of the sorter write path\<close>

lemma int32_id: "- (2^31) \<le> x \<Longrightarrow> x < 2^31 \<Longrightarrow> int32 x = x"
  by (simp add: int32_def int_word_sint)

lemma int32_range: "- (2^31) \<le> int32 x \<and> int32 x < 2^31"
  using sint_range_size [of "word_of_int x :: 32 word"]
  by (simp add: int32_def word_size)

lemma task_frame_refl [simp]: "task_frame t t"
  by (simp add: task_frame_def)

lemma task_frame_trans: "task_frame t t1 \<Longrightarrow> task_frame t1 t2 \<Longrightarrow> task_frame t t2"
  by (simp add: task_frame_def)

lemma compare_frame: "vdbeSorterCompare cmp t a b = (r, t') \<Longrightarrow> task_frame t t'"
  by (cases b) (auto simp: vdbeSorterCompare_def task_frame_def)

lemma merge_loop_frame:
  "vdbeSorterMerge_loop cmp t p1 p2 v = (t', r) \<Longrightarrow> task_frame t t'"
proof (induction cmp t p1 p2 v arbitrary: t' r rule: vdbeSorterMerge_loop.induct)
  case (1 cmp t p2 pVal2)
  then show ?case by auto
next
  case (2 cmp t x xs pVal2)
  then show ?case by auto
next
  case (3 cmp t x xs y ys pVal2)
  obtain res t1 where c: "vdbeSorterCompare cmp t x pVal2 = (res, t1)" by force
  note t1 = compare_frame [OF c]
  show ?case
  proof (cases "res \<le> 0")
    case True
    obtain t2 r2 where m: "vdbeSorterMerge_loop cmp t1 xs (y # ys) None = (t2, r2)" by force
    from "3.IH"(1) [OF c [symmetric] refl True m] have "task_frame t1 t2" .
    with "3.prems" c True m t1 show ?thesis by (auto intro: task_frame_trans)
  next
    case False
    show ?thesis
    proof (cases ys)
      case Nil
      with "3.prems" c False t1 show ?thesis by auto
    next
      case (Cons y' ys')
      obtain t2 r2 where m: "vdbeSorterMerge_loop cmp t1 (x # xs) ys (Some y') = (t2, r2)" by force
      from "3.IH"(2) [OF c [symmetric] refl False Cons m] have "task_frame t1 t2" .
      with "3.prems" c False m t1 Cons show ?thesis by (auto intro: task_frame_trans)
    qed
  qed
qed

lemma merge_frame: "vdbeSorterMerge cmp t p1 p2 = (t', r) \<Longrightarrow> task_frame t t'"
  unfolding vdbeSorterMerge_def by (rule merge_loop_frame)

lemma sort_carry_frame:
  "sort_carry cmp t p aSlot i = Some (t', a') \<Longrightarrow> task_frame t t'"
proof (induction cmp t p aSlot i arbitrary: t' a' rule: sort_carry.induct)
  case (1 cmp t p aSlot i)
  show ?case
  proof (cases "64 \<le> i \<or> aSlot ! i = []")
    case True
    with "1.prems" show ?thesis
      by (subst (asm) sort_carry.simps) (auto split: if_splits)
  next
    case False
    obtain t1 p1 where m: "vdbeSorterMerge cmp t p (aSlot ! i) = (t1, p1)" by force
    note t1 = merge_frame [OF m]
    from False "1.prems" m have "sort_carry cmp t1 p1 (aSlot[i := []]) (i + 1) = Some (t', a')"
      by (subst (asm) sort_carry.simps) (simp split: if_splits)
    from "1.IH" [OF _ _ m [symmetric] refl this] False have "task_frame t1 t'"
      by auto
    with t1 show ?thesis by (rule task_frame_trans)
  qed
qed

lemma sort_fill_frame:
  "sort_fill cmp t rs aSlot = Some (t', a') \<Longrightarrow> task_frame t t'"
proof (induction rs arbitrary: t aSlot)
  case Nil
  then show ?case by auto
next
  case (Cons r rs)
  from Cons.prems obtain t1 a1 where c: "sort_carry cmp t [r] aSlot 0 = Some (t1, a1)"
    and f: "sort_fill cmp t1 rs a1 = Some (t', a')"
    by (auto split: option.splits)
  from sort_carry_frame [OF c] Cons.IH [OF f] show ?case by (rule task_frame_trans)
qed

lemma sort_collect_frame:
  "sort_collect cmp t p ss = (t', r) \<Longrightarrow> task_frame t t'"
proof (induction ss arbitrary: t p)
  case Nil
  then show ?case by auto
next
  case (Cons s ss)
  obtain t1 p1 where m: "vdbeSorterMerge cmp t p s = (t1, p1)" by force
  with Cons.prems have "sort_collect cmp t1 p1 ss = (t', r)" by simp
  from merge_frame [OF m] Cons.IH [OF this] show ?case by (rule task_frame_trans)
qed

lemma vdbeSortAllocUnpacked_frame:
  assumes "vdbeSortAllocUnpacked ok t = (rc, t')"
  shows "nPMA t' = nPMA t \<and> task_file t' = task_file t \<and> task_file2 t' = task_file2 t
     \<and> (errCode t = SQLITE_OK \<longrightarrow> errCode t' = SQLITE_OK) \<and> (ok \<longrightarrow> rc = SQLITE_OK)"
  using assms by (auto simp: vdbeSortAllocUnpacked_def SQLITE_OK_def split: if_splits)

lemma vdbeSorterSort_frame:
  assumes "vdbeSorterSort cmp ok t l = Some (rc, t', l')"
  shows "nPMA t' = nPMA t \<and> task_file t' = task_file t \<and> task_file2 t' = task_file2 t
     \<and> (errCode t = SQLITE_OK \<and> ok \<longrightarrow> rc = SQLITE_OK \<and> errCode t' = SQLITE_OK)"
proof -
  obtain rc0 t0 where a: "vdbeSortAllocUnpacked ok t = (rc0, t0)" by force
  note t0 = vdbeSortAllocUnpacked_frame [OF a]
  show ?thesis
  proof (cases "rc0 \<noteq> SQLITE_OK \<or> \<not> ok")
    case True
    with assms a t0 show ?thesis by (auto simp: vdbeSorterSort_def split: if_splits)
  next
    case False
    with assms a obtain t1 aSlot t2 p where
      f: "sort_fill cmp t0 (pList l) (replicate 64 []) = Some (t1, aSlot)"
      and c: "sort_collect cmp t1 [] aSlot = (t2, p)"
      and r: "rc = errCode t2" "t' = t2"
      by (auto simp: vdbeSorterSort_def split: if_splits option.splits prod.splits)
    from task_frame_trans [OF sort_fill_frame [OF f] sort_collect_frame [OF c]] t0 r
    show ?thesis by (auto simp: task_frame_def)
  qed
qed


subsection \<open>The sort returns\<close>

lemma merge_loop_mset:
  "vdbeSorterMerge_loop cmp t p1 p2 v = (t', r) \<Longrightarrow> mset r = mset p1 + mset p2"
proof (induction cmp t p1 p2 v arbitrary: t' r rule: vdbeSorterMerge_loop.induct)
  case (1 cmp t p2 pVal2)
  then show ?case by auto
next
  case (2 cmp t x xs pVal2)
  then show ?case by auto
next
  case (3 cmp t x xs y ys pVal2)
  obtain res t1 where c: "vdbeSorterCompare cmp t x pVal2 = (res, t1)" by force
  show ?case
  proof (cases "res \<le> 0")
    case True
    obtain t2 r2 where m: "vdbeSorterMerge_loop cmp t1 xs (y # ys) None = (t2, r2)" by force
    from "3.IH"(1) [OF c [symmetric] refl True m] have "mset r2 = mset xs + mset (y # ys)" .
    with "3.prems" c True m show ?thesis by auto
  next
    case False
    show ?thesis
    proof (cases ys)
      case Nil
      with "3.prems" c False show ?thesis by auto
    next
      case (Cons y' ys')
      obtain t2 r2 where m: "vdbeSorterMerge_loop cmp t1 (x # xs) ys (Some y') = (t2, r2)" by force
      from "3.IH"(2) [OF c [symmetric] refl False Cons m] have "mset r2 = mset (x # xs) + mset ys" .
      with "3.prems" c False m Cons show ?thesis by auto
    qed
  qed
qed

lemma merge_mset: "vdbeSorterMerge cmp t p1 p2 = (t', r) \<Longrightarrow> mset r = mset p1 + mset p2"
  unfolding vdbeSorterMerge_def by (rule merge_loop_mset)

lemma merge_length: "vdbeSorterMerge cmp t p1 p2 = (t', r) \<Longrightarrow> length r = length p1 + length p2"
  using merge_mset [of cmp t p1 p2 t' r] by (metis size_mset size_union)

text \<open>
  The 64 slots of the sort: slot \<open>i\<close> is empty or holds \<open>2^i\<close> records.  \<open>slots_mset\<close> is
  the multiset of all records in the slots.
\<close>


lemma sum_list_map_update:
  fixes f :: "'a \<Rightarrow> 'b::comm_monoid_add"
  shows "i < length xs \<Longrightarrow> sum_list (map f (xs[i := x])) + f (xs ! i) = sum_list (map f xs) + f x"
proof (induction xs arbitrary: i)
  case Nil
  then show ?case by simp
next
  case (Cons a xs)
  show ?case
  proof (cases i)
    case 0
    then show ?thesis by (simp add: add.commute add.left_commute)
  next
    case (Suc j)
    with Cons.prems have "j < length xs" by simp
    from Cons.IH [OF this] Suc show ?thesis by (simp add: add.assoc)
  qed
qed

lemma size_sum_mset: "size (sum_list (map mset a)) = sum_list (map length a)"
  by (induction a) simp_all

lemma sort_carry_returns:
  assumes "slots_inv aSlot" "length p = 2 ^ i"
    and "length p + sum_list (map length aSlot) < 2 ^ 64"
  shows "\<exists>t' a'. sort_carry cmp t p aSlot i = Some (t', a') \<and> slots_inv a' \<and>
           sum_list (map mset a') = mset p + sum_list (map mset aSlot)"
  using assms
proof (induction cmp t p aSlot i rule: sort_carry.induct)
  case (1 cmp t p aSlot i)
  have i: "i < 64"
  proof (rule ccontr)
    assume "\<not> i < 64"
    then have "(2::nat) ^ 64 \<le> 2 ^ i" by (intro power_increasing) simp_all
    with "1.prems" show False by simp
  qed
  from "1.prems"(1) have len: "length aSlot = 64"
    and sl: "\<And>j. j < 64 \<Longrightarrow> aSlot ! j = [] \<or> length (aSlot ! j) = 2 ^ j"
    by (auto simp: slots_inv_def)
  show ?case
  proof (cases "aSlot ! i = []")
    case True
    have inv: "slots_inv (aSlot[i := p])"
      unfolding slots_inv_def
    proof (intro conjI allI impI)
      fix j :: nat
      assume "j < 64"
      with sl [of j] len "1.prems"(2)
      show "aSlot[i := p] ! j = [] \<or> length (aSlot[i := p] ! j) = 2 ^ j"
        by (cases "j = i") simp_all
    qed (simp add: len)
    from sum_list_map_update [of i aSlot mset p] i len True
    have "sum_list (map mset (aSlot[i := p])) = mset p + sum_list (map mset aSlot)"
      by (simp add: add.commute)
    moreover from i have ni: "\<not> 64 \<le> i" by simp
    have "sort_carry cmp t p aSlot i = Some (t, aSlot[i := p])"
      by (subst sort_carry.simps) (simp add: ni True)
    ultimately show ?thesis using inv by blast
  next
    case False
    with sl [OF i] have li: "length (aSlot ! i) = 2 ^ i" by simp
    obtain t1 p1 where m: "vdbeSorterMerge cmp t p (aSlot ! i) = (t1, p1)" by force
    from merge_length [OF m] li "1.prems"(2) have lp1: "length p1 = 2 ^ (i + 1)" by simp
    have inv: "slots_inv (aSlot[i := []])"
      unfolding slots_inv_def
    proof (intro conjI allI impI)
      fix j :: nat
      assume "j < 64"
      with sl [of j] len
      show "aSlot[i := []] ! j = [] \<or> length (aSlot[i := []] ! j) = 2 ^ j"
        by (cases "j = i") simp_all
    qed (simp add: len)
    from sum_list_map_update [of i aSlot length "[]"] i len
    have cnt: "sum_list (map length (aSlot[i := []])) + length (aSlot ! i) = sum_list (map length aSlot)"
      by simp
    from merge_length [OF m] cnt "1.prems"(3)
    have b: "length p1 + sum_list (map length (aSlot[i := []])) < 2 ^ 64" by simp
    from sum_list_map_update [of i aSlot mset "[]"] i len
    have ms: "sum_list (map mset (aSlot[i := []])) + mset (aSlot ! i) = sum_list (map mset aSlot)"
      by simp
    from i False have ni: "\<not> 64 \<le> i" by simp
    from "1.IH" [OF ni False m [symmetric] refl inv lp1 b]
    obtain t' a' where r: "sort_carry cmp t1 p1 (aSlot[i := []]) (i + 1) = Some (t', a')"
      and inv': "slots_inv a'"
      and ms': "sum_list (map mset a') = mset p1 + sum_list (map mset (aSlot[i := []]))"
      by blast
    from ms' merge_mset [OF m]
    have "sum_list (map mset a') = mset p + (sum_list (map mset (aSlot[i := []])) + mset (aSlot ! i))"
      by (simp only: add.assoc add.commute [of "mset (aSlot ! i)"])
    with ms have e: "sum_list (map mset a') = mset p + sum_list (map mset aSlot)"
      by (simp only:)
    have "sort_carry cmp t p aSlot i = sort_carry cmp t1 p1 (aSlot[i := []]) (i + 1)"
      by (subst sort_carry.simps) (simp only: ni False m if_False Let_def prod.case)
    with r inv' e show ?thesis by (simp only:) blast
  qed
qed

lemma sort_fill_returns:
  assumes "slots_inv aSlot" "length rs + sum_list (map length aSlot) < 2 ^ 64"
  shows "\<exists>t' a'. sort_fill cmp t rs aSlot = Some (t', a') \<and>
           sum_list (map mset a') = mset rs + sum_list (map mset aSlot)"
  using assms
proof (induction rs arbitrary: t aSlot)
  case Nil
  then show ?case by simp
next
  case (Cons r rs)
  from Cons.prems(2) have b0: "length [r] + sum_list (map length aSlot) < 2 ^ 64" by simp
  from sort_carry_returns [OF Cons.prems(1) _ b0, of 0 cmp t]
  obtain t1 a1 where c: "sort_carry cmp t [r] aSlot 0 = Some (t1, a1)" and inv: "slots_inv a1"
    and ms: "sum_list (map mset a1) = mset [r] + sum_list (map mset aSlot)"
    by auto
  from ms have "size (sum_list (map mset a1)) = size (mset [r] + sum_list (map mset aSlot))"
    by simp
  then have "sum_list (map length a1) = 1 + sum_list (map length aSlot)"
    by (simp add: size_sum_mset)
  with Cons.prems(2) have b1: "length rs + sum_list (map length a1) < 2 ^ 64" by simp
  from Cons.IH [OF inv b1, of t1]
  obtain t' a' where f: "sort_fill cmp t1 rs a1 = Some (t', a')"
    and ms': "sum_list (map mset a') = mset rs + sum_list (map mset a1)" by blast
  from c f ms ms' show ?case by (simp add: ac_simps)
qed

lemma sort_collect_mset:
  "sort_collect cmp t p ss = (t', r) \<Longrightarrow> mset r = mset p + sum_list (map mset ss)"
proof (induction ss arbitrary: t p)
  case Nil
  then show ?case by simp
next
  case (Cons s ss)
  obtain t1 p1 where m: "vdbeSorterMerge cmp t p s = (t1, p1)" by force
  with Cons.prems have "sort_collect cmp t1 p1 ss = (t', r)" by simp
  from Cons.IH [OF this] merge_mset [OF m] show ?case by (simp add: add.assoc)
qed

lemma slots_inv_empty: "slots_inv (replicate 64 [])"
  by (simp add: slots_inv_def)

lemma vdbeSorterSort_returns:
  assumes "length (pList l) < 2 ^ 64"
  shows "\<exists>rc t' l'. vdbeSorterSort cmp ok t l = Some (rc, t', l') \<and>
           mset (pList l') = mset (pList l) \<and> aMemory l' = aMemory l \<and> szPMA l' = szPMA l"
proof -
  obtain rc0 t0 where a: "vdbeSortAllocUnpacked ok t = (rc0, t0)" by force
  show ?thesis
  proof (cases "rc0 \<noteq> SQLITE_OK \<or> \<not> ok")
    case True
    with a show ?thesis by (auto simp: vdbeSorterSort_def)
  next
    case False
    from assms have "length (pList l) + sum_list (map length (replicate 64 ([]::SorterRecord list))) < 2 ^ 64"
      by (simp add: sum_list_replicate)
    from sort_fill_returns [OF slots_inv_empty this, of cmp t0]
    obtain t1 aSlot where f: "sort_fill cmp t0 (pList l) (replicate 64 []) = Some (t1, aSlot)"
      and ms: "sum_list (map mset aSlot) = mset (pList l) + sum_list (map mset (replicate 64 []))"
      by blast
    obtain t2 p where c: "sort_collect cmp t1 [] aSlot = (t2, p)" by force
    have "sum_list (map mset (replicate n ([]::SorterRecord list))) = {#}" for n
      by (induction n) simp_all
    with sort_collect_mset [OF c] ms have "mset p = mset (pList l)" by simp
    with False a f c show ?thesis by (simp add: vdbeSorterSort_def)
  qed
qed

lemma grow_nNew_returns:
  "0 < nNew \<Longrightarrow> nNew < 2 * nMin \<Longrightarrow> nMin \<le> 2^29 \<Longrightarrow>
   \<exists>k. grow_nNew nNew nMin = Some k \<and> nMin \<le> k \<and> k < 2 * nMin"
proof (induction "nat (nMin - nNew)" arbitrary: nNew rule: less_induct)
  case less
  show ?case
  proof (cases "nNew < nMin")
    case True
    from less.prems True have e: "int32 (nNew * 2) = nNew * 2"
      by (intro int32_id) simp_all
    from less.prems True have "nat (nMin - nNew * 2) < nat (nMin - nNew)" by simp
    from less.hyps [OF this] less.prems True
    obtain k where "grow_nNew (nNew * 2) nMin = Some k \<and> nMin \<le> k \<and> k < 2 * nMin" by auto
    with True e show ?thesis by (subst grow_nNew.simps) simp
  next
    case False
    with less.prems show ?thesis by (subst grow_nNew.simps) simp
  qed
qed

lemma arena_grow_returns:
  assumes "0 < nMemory s" "nMemory s < nMin" "nMin \<le> 2^29"
  shows "\<exists>n. nMin \<le> n \<and>
           arena_grow env s nMin =
             Some (if mallocOk env then (SQLITE_OK, s\<lparr>nMemory := n\<rparr>) else (SQLITE_NOMEM, s))"
proof -
  from assms have e: "int32 (nMemory s * 2) = nMemory s * 2" by (intro int32_id) simp_all
  from assms grow_nNew_returns [of "nMemory s * 2" nMin]
  obtain k where k: "grow_nNew (nMemory s * 2) nMin = Some k" "nMin \<le> k" "k < 2 * nMin" by auto
  define n3 where "n3 = (let n2 = (if k > mxPmaSize s then mxPmaSize s else k) in if n2 < nMin then nMin else n2)"
  from k assms have b: "nMin \<le> n3" "n3 < 2^30" "0 < n3" by (auto simp: n3_def Let_def)
  then have "\<not> n3 \<le> 0" "\<not> n3 \<ge> 0x7fffff00" by simp_all
  with e k(1) have "arena_grow env s nMin =
      Some (if mallocOk env then (SQLITE_OK, s\<lparr>nMemory := n3\<rparr>) else (SQLITE_NOMEM, s))"
    by (simp add: arena_grow_def n3_def Let_def)
  with b(1) show ?thesis by blast
qed

lemma write_append_returns:
  assumes len: "int (length v) + sizeof_SorterRecord \<le> 2^29"
    and bulk: "aMemory (list s1) \<longrightarrow>
                 0 \<le> iMemory s1 \<and> iMemory s1 + int (length v) + sizeof_SorterRecord \<le> 2^29 \<and>
                 0 < nMemory s1 \<and> (iMemory s1 \<noteq> 0 \<longrightarrow> pList (list s1) \<noteq> [])"
  shows "\<exists>rc' s'. write_append env rc s1 v = Some (rc', s') \<and>
           aTask s' = aTask s1 \<and> bUsePMA s' = bUsePMA s1 \<and>
           ((rc' = rc \<and> pList (list s') = (if aMemory (list s1) \<and> iMemory s1 = 0 then [v]
                                           else v # pList (list s1)))
            \<or> (rc' = SQLITE_NOMEM \<and> pList (list s') = pList (list s1))) \<and>
           (mallocOk env \<longrightarrow> rc' = rc \<and>
              pList (list s') = (if aMemory (list s1) \<and> iMemory s1 = 0 then [v]
                                 else v # pList (list s1)))"
proof -
  let ?n = "int (length v) + sizeof_SorterRecord"
  from len have nReq: "int32 ?n = ?n" by (intro int32_id) (simp_all add: sizeof_SorterRecord_def)
  define nP where "nP = int32 (int (length v) + sqlite3VarintLen (int (length v)))"
  define s2 where "s2 = s1\<lparr>list := (list s1)\<lparr>szPMA := int32 (szPMA (list s1) + nP)\<rparr>,
                          mxKeysize := (if nP > mxKeysize s1 then nP else mxKeysize s1)\<rparr>"
  have s2: "aMemory (list s2) = aMemory (list s1)" "iMemory s2 = iMemory s1" "nMemory s2 = nMemory s1"
    "pList (list s2) = pList (list s1)" "aTask s2 = aTask s1" "bUsePMA s2 = bUsePMA s1"
    by (simp_all add: s2_def)
  have w: "write_append env rc s1 v =
     (if aMemory (list s2) then
        (case (if int32 (iMemory s2 + ?n) > nMemory s2 then arena_grow env s2 (int32 (iMemory s2 + ?n))
               else Some (SQLITE_OK, s2)) of
           None \<Rightarrow> None
         | Some (rc1, s3) \<Rightarrow>
             if rc1 \<noteq> SQLITE_OK then Some (rc1, s3) else arena_store rc s3 v ?n)
      else if \<not> sqlite3Malloc_ok env ?n then Some (SQLITE_NOMEM, s2)
      else Some (rc, s2\<lparr>list := (list s2)\<lparr>pList := v # pList (list s2)\<rparr>\<rparr>))"
    by (simp add: write_append_def Let_def nReq s2_def nP_def)
  show ?thesis
  proof (cases "aMemory (list s1)")
    case False
    from len have "sqlite3Malloc_ok env ?n = mallocOk env"
      by (simp add: sqlite3Malloc_ok_def sizeof_SorterRecord_def)
    with False w s2 show ?thesis by simp
  next
    case True
    with bulk have b: "0 \<le> iMemory s1" "iMemory s1 + ?n \<le> 2^29" "0 < nMemory s1"
      "iMemory s1 \<noteq> 0 \<longrightarrow> pList (list s1) \<noteq> []" by simp_all
    from b have nMin: "int32 (iMemory s1 + ?n) = iMemory s1 + ?n"
      by (intro int32_id) (simp_all add: sizeof_SorterRecord_def)
    have st: "arena_store rc s3 v ?n =
        Some (rc, s3\<lparr>iMemory := int32 (iMemory s3 + ROUND8 ?n),
                     list := (list s3)\<lparr>pList := (if iMemory s3 = 0 then [v] else v # pList (list s3))\<rparr>\<rparr>)"
      if "iMemory s3 = iMemory s1" "pList (list s3) = pList (list s1)" "iMemory s1 + ?n \<le> nMemory s3"
      for s3
      using that b by (auto simp: arena_store_def ac_simps)
    show ?thesis
    proof (cases "iMemory s1 + ?n > nMemory s1")
      case False
      with st [of s2] s2 have "arena_store rc s2 v ?n =
        Some (rc, s2\<lparr>iMemory := int32 (iMemory s2 + ROUND8 ?n),
                     list := (list s2)\<lparr>pList := (if iMemory s2 = 0 then [v] else v # pList (list s2))\<rparr>\<rparr>)"
        by simp
      with False True w s2 nMin show ?thesis by (simp add: SQLITE_OK_def)
    next
      case g: True
      from arena_grow_returns [of s2 "iMemory s1 + ?n" env] b g s2
      obtain n where n: "iMemory s1 + ?n \<le> n"
        "arena_grow env s2 (iMemory s1 + ?n) =
           Some (if mallocOk env then (SQLITE_OK, s2\<lparr>nMemory := n\<rparr>) else (SQLITE_NOMEM, s2))"
        by auto
      show ?thesis
      proof (cases "mallocOk env")
        case False
        with n g True w s2 nMin show ?thesis by (simp add: SQLITE_OK_def SQLITE_NOMEM_def)
      next
        case m: True
        from st [of "s2\<lparr>nMemory := n\<rparr>"] s2 n(1)
        have "arena_store rc (s2\<lparr>nMemory := n\<rparr>) v ?n =
          Some (rc, s2\<lparr>nMemory := n, iMemory := int32 (iMemory s2 + ROUND8 ?n),
                     list := (list s2)\<lparr>pList := (if iMemory s2 = 0 then [v] else v # pList (list s2))\<rparr>\<rparr>)"
          by simp
        with m n g True w s2 nMin show ?thesis by (simp add: SQLITE_OK_def)
      qed
    qed
  qed
qed

lemma vdbeSorterSort_rc:
  assumes "vdbeSorterSort cmp ok t l = Some (rc, t', l')" "ok"
      and "pUnpacked t \<noteq> None \<longrightarrow> errCode t = SQLITE_OK"
  shows "rc = SQLITE_OK"
proof -
  obtain rc0 t0 where a: "vdbeSortAllocUnpacked ok t = (rc0, t0)" by force
  with assms(2,3) have t0: "rc0 = SQLITE_OK" "errCode t0 = SQLITE_OK"
    by (auto simp: vdbeSortAllocUnpacked_def SQLITE_OK_def split: if_splits)
  with assms(1,2) a obtain t1 aSlot t2 p where
    f: "sort_fill cmp t0 (pList l) (replicate 64 []) = Some (t1, aSlot)"
    and c: "sort_collect cmp t1 [] aSlot = (t2, p)"
    and r: "rc = errCode t2"
    by (auto simp: vdbeSorterSort_def split: if_splits option.splits prod.splits)
  from task_frame_trans [OF sort_fill_frame [OF f] sort_collect_frame [OF c]] t0 r
  show ?thesis by (simp add: task_frame_def)
qed

lemma vdbeSorterListToPMA_returns:
  assumes "length (pList l) < 2 ^ 64"
  shows "\<exists>rc t' l'. vdbeSorterListToPMA cmp env t l = Some (rc, t', l') \<and>
           aMemory l' = aMemory l \<and>
           (\<not> pFd (task_file t) \<and> openRc env \<noteq> SQLITE_OK \<longrightarrow> rc = openRc env \<and> t' = t \<and> l' = l) \<and>
           (flush_env_ok env t \<longrightarrow>
              rc = SQLITE_OK \<and> pList l' = [] \<and> nPMA t' = int32 (nPMA t + 1) \<and>
              (\<exists>ps. pmas (task_file t') = pmas (task_file t) @ [ps] \<and> mset ps = mset (pList l)))"
proof (cases "\<not> pFd (task_file t) \<and> openRc env \<noteq> SQLITE_OK")
  case True
  then show ?thesis by (simp add: vdbeSorterListToPMA_def flush_env_ok_def)
next
  case False
  define t0 where "t0 = (if \<not> pFd (task_file t) then t\<lparr>task_file := (task_file t)\<lparr>pFd := True\<rparr>\<rparr> else t)"
  have t0: "pUnpacked t0 = pUnpacked t" "errCode t0 = errCode t" "nPMA t0 = nPMA t"
    "pmas (task_file t0) = pmas (task_file t)"
    by (simp_all add: t0_def)
  from vdbeSorterSort_returns [OF assms, of cmp "allocOk env" t0]
  obtain rc1 t1 l1 where s: "vdbeSorterSort cmp (allocOk env) t0 l = Some (rc1, t1, l1)"
    and l1: "mset (pList l1) = mset (pList l)" "aMemory l1 = aMemory l" by blast
  note fr = vdbeSorterSort_frame [OF s]
  from False s have e: "vdbeSorterListToPMA cmp env t l =
     (if rc1 \<noteq> SQLITE_OK then Some (rc1, t1, l1)
      else (let f = task_file t1;
                f' = (if writeRc env = SQLITE_OK
                      then f\<lparr>iEof := iEof f + sqlite3VarintLen (szPMA l1) + pma_bytes (pList l1),
                             pmas := pmas f @ [pList l1]\<rparr>
                      else f\<lparr>iEof := failEof env\<rparr>)
            in Some (writeRc env, t1\<lparr>nPMA := int32 (nPMA t1 + 1), task_file := f'\<rparr>,
                     l1\<lparr>pList := []\<rparr>)))"
    by (auto simp: vdbeSorterListToPMA_def t0_def Let_def)
  have ok: "rc1 = SQLITE_OK" if "flush_env_ok env t"
    using vdbeSorterSort_rc [OF s] that t0 by (simp add: flush_env_ok_def)
  show ?thesis
  proof (cases "rc1 = SQLITE_OK")
    case True
    with e False fr t0 l1 show ?thesis by (auto simp: Let_def flush_env_ok_def)
  next
    case r: False
    with ok have "\<not> flush_env_ok env t" by blast
    with e r False l1 show ?thesis by auto
  qed
qed

lemma write_flush_returns:
  assumes "length (pList (list s)) < 2 ^ 64"
  shows "\<exists>rc s1. write_flush cmp env s nReq = Some (rc, s1) \<and>
           aMemory (list s1) = aMemory (list s) \<and> nMemory s1 = nMemory s \<and>
           (\<not> (mxPmaSize s \<noteq> 0 \<and> bFlush env s nReq) \<longrightarrow> rc = SQLITE_OK \<and> s1 = s) \<and>
           (mxPmaSize s \<noteq> 0 \<and> bFlush env s nReq \<longrightarrow>
              iMemory s1 = 0 \<and> bUsePMA s1 \<and>
              (\<exists>s0. vdbeSorterFlushPMA cmp env s = Some (rc, s0) \<and> pList (list s1) = pList (list s0)) \<and>
              (\<not> pFd (task_file (aTask s)) \<and> openRc env \<noteq> SQLITE_OK \<longrightarrow>
                 rc = openRc env \<and> pList (list s1) = pList (list s)) \<and>
              (flush_env_ok env (aTask s) \<longrightarrow>
                 rc = SQLITE_OK \<and> pList (list s1) = [] \<and>
                 nPMA (aTask s1) = int32 (nPMA (aTask s) + 1) \<and>
                 (\<exists>ps. pmas (task_file (aTask s1)) = pmas (task_file (aTask s)) @ [ps] \<and>
                       mset ps = mset (pList (list s)))))"
proof (cases "mxPmaSize s \<noteq> 0 \<and> bFlush env s nReq")
  case False
  then show ?thesis by (auto simp: write_flush_def)
next
  case True
  from vdbeSorterListToPMA_returns [OF assms, of cmp env "aTask s"]
  obtain rc t' l' where f: "vdbeSorterListToPMA cmp env (aTask s) (list s) = Some (rc, t', l')"
    and p: "aMemory l' = aMemory (list s)"
      "\<not> pFd (task_file (aTask s)) \<and> openRc env \<noteq> SQLITE_OK \<longrightarrow> rc = openRc env \<and> t' = aTask s \<and> l' = list s"
      "flush_env_ok env (aTask s) \<longrightarrow>
              rc = SQLITE_OK \<and> pList l' = [] \<and> nPMA t' = int32 (nPMA (aTask s) + 1) \<and>
              (\<exists>ps. pmas (task_file t') = pmas (task_file (aTask s)) @ [ps] \<and> mset ps = mset (pList (list s)))"
    by blast
  from True f have "write_flush cmp env s nReq =
      Some (rc, s\<lparr>bUsePMA := True, aTask := t', list := l'\<lparr>szPMA := 0\<rparr>, iMemory := 0\<rparr>)"
    by (simp add: write_flush_def vdbeSorterFlushPMA_def)
  moreover from f have "vdbeSorterFlushPMA cmp env s = Some (rc, s\<lparr>bUsePMA := True, aTask := t', list := l'\<rparr>)"
    by (simp add: vdbeSorterFlushPMA_def)
  ultimately show ?thesis using True p by simp
qed

lemma bFlush_required:
  assumes "write_sizes_ok s v"
  shows "(mxPmaSize s \<noteq> 0 \<and> bFlush env s (int32 (int (length v) + sizeof_SorterRecord)))
         = flush_required env s v"
proof -
  let ?n = "int (length v) + sizeof_SorterRecord"
  from assms have nReq: "int32 ?n = ?n"
    by (intro int32_id) (simp_all add: write_sizes_ok_def sizeof_SorterRecord_def)
  show ?thesis
  proof (cases "aMemory (list s)")
    case True
    with assms have "int32 (iMemory s + ?n) = iMemory s + ?n"
      by (intro int32_id) (simp_all add: write_sizes_ok_def sizeof_SorterRecord_def)
    with True nReq show ?thesis
      by (auto simp: bFlush_def flush_required_def spec_flush_required_def)
  next
    case False
    then show ?thesis by (auto simp: bFlush_def flush_required_def spec_flush_required_def)
  qed
qed

lemma sqlite3VdbeSorterWrite_returns:
  assumes "write_sizes_ok s v"
  shows "\<exists>rc s' rc1 s1.
           write_flush cmp env s (int32 (int (length v) + sizeof_SorterRecord)) = Some (rc1, s1) \<and>
           sqlite3VdbeSorterWrite cmp env s v = Some (rc, s') \<and>
           aTask s' = aTask s1 \<and> bUsePMA s' = bUsePMA s1 \<and>
           (mallocOk env \<longrightarrow> rc = rc1 \<and>
              pList (list s') = (if aMemory (list s1) \<and> iMemory s1 = 0 then [v]
                                 else v # pList (list s1)))"
proof -
  let ?n = "int32 (int (length v) + sizeof_SorterRecord)"
  from assms have l: "length (pList (list s)) < 2 ^ 64" by (simp add: write_sizes_ok_def)
  from write_flush_returns [OF l, of cmp env ?n]
  obtain rc1 s1 where f: "write_flush cmp env s ?n = Some (rc1, s1)"
    and m: "aMemory (list s1) = aMemory (list s)" "nMemory s1 = nMemory s"
    and n: "\<not> (mxPmaSize s \<noteq> 0 \<and> bFlush env s ?n) \<longrightarrow> s1 = s"
    and y: "mxPmaSize s \<noteq> 0 \<and> bFlush env s ?n \<longrightarrow> iMemory s1 = 0"
    by blast
  from assms have len: "int (length v) + sizeof_SorterRecord \<le> 2^29" by (simp add: write_sizes_ok_def)
  have bulk: "aMemory (list s1) \<longrightarrow>
                 0 \<le> iMemory s1 \<and> iMemory s1 + int (length v) + sizeof_SorterRecord \<le> 2^29 \<and>
                 0 < nMemory s1 \<and> (iMemory s1 \<noteq> 0 \<longrightarrow> pList (list s1) \<noteq> [])"
  proof (cases "mxPmaSize s \<noteq> 0 \<and> bFlush env s ?n")
    case True
    with y m assms show ?thesis by (simp add: write_sizes_ok_def)
  next
    case False
    with n assms show ?thesis by (simp add: write_sizes_ok_def)
  qed
  from write_append_returns [OF len bulk, of env rc1]
  obtain rc s' where a: "write_append env rc1 s1 v = Some (rc, s')"
    "aTask s' = aTask s1" "bUsePMA s' = bUsePMA s1"
    "mallocOk env \<longrightarrow> rc = rc1 \<and>
              pList (list s') = (if aMemory (list s1) \<and> iMemory s1 = 0 then [v]
                                 else v # pList (list s1))"
    by blast
  with f show ?thesis by (simp add: sqlite3VdbeSorterWrite_def)
qed

text \<open>
  C5, as the code has it.  For a write within the sizes of \<open>write_sizes_ok\<close> the function
  returns.  When \<open>flush_required\<close> does not hold nothing is flushed: the sub-task, with
  its temp file and PMA count, and the PMA flag are as before, and if the allocation
  succeeds the result is \<open>SQLITE_OK\<close> and the record is stored (in front of the list, or,
  with bulk memory and \<open>iMemory = 0\<close>, as the whole list).  When it holds the flush is
  made: the PMA flag is set, and if the flush goes through (\<open>flush_env_ok\<close>) the PMA
  count has grown by one (in \<open>int\<close>), the temp file has one more PMA made of the records of
  the list, and, if the allocation succeeds, the result is \<open>SQLITE_OK\<close> and the list holds
  the new record only.
\<close>

theorem C5_flush_condition:
  assumes "write_sizes_ok s v"
  shows "\<exists>rc s'. sqlite3VdbeSorterWrite cmp env s v = Some (rc, s') \<and>
     (\<not> flush_required env s v \<longrightarrow>
        aTask s' = aTask s \<and> bUsePMA s' = bUsePMA s \<and>
        (mallocOk env \<longrightarrow> rc = SQLITE_OK \<and>
           pList (list s') = (if aMemory (list s) \<and> iMemory s = 0 then [v]
                              else v # pList (list s)))) \<and>
     (flush_required env s v \<longrightarrow>
        bUsePMA s' \<and>
        (flush_env_ok env (aTask s) \<longrightarrow>
           nPMA (aTask s') = int32 (nPMA (aTask s) + 1) \<and>
           (\<exists>ps. pmas (task_file (aTask s')) = pmas (task_file (aTask s)) @ [ps] \<and>
                 mset ps = mset (pList (list s))) \<and>
           (mallocOk env \<longrightarrow> rc = SQLITE_OK \<and> pList (list s') = [v])))"
proof -
  let ?n = "int32 (int (length v) + sizeof_SorterRecord)"
  from assms have l: "length (pList (list s)) < 2 ^ 64" by (simp add: write_sizes_ok_def)
  from sqlite3VdbeSorterWrite_returns [OF assms, of cmp env]
  obtain rc s' rc1 s1 where
    f: "write_flush cmp env s ?n = Some (rc1, s1)"
    and w: "sqlite3VdbeSorterWrite cmp env s v = Some (rc, s')"
    and a: "aTask s' = aTask s1" "bUsePMA s' = bUsePMA s1"
    and m: "mallocOk env \<longrightarrow> rc = rc1 \<and>
              pList (list s') = (if aMemory (list s1) \<and> iMemory s1 = 0 then [v]
                                 else v # pList (list s1))"
    by blast
  from write_flush_returns [OF l, of cmp env ?n] f
  have n: "\<not> (mxPmaSize s \<noteq> 0 \<and> bFlush env s ?n) \<longrightarrow> rc1 = SQLITE_OK \<and> s1 = s"
    and y: "mxPmaSize s \<noteq> 0 \<and> bFlush env s ?n \<longrightarrow> iMemory s1 = 0 \<and> bUsePMA s1"
    and g: "mxPmaSize s \<noteq> 0 \<and> bFlush env s ?n \<and> flush_env_ok env (aTask s) \<longrightarrow>
              rc1 = SQLITE_OK \<and> pList (list s1) = [] \<and>
              nPMA (aTask s1) = int32 (nPMA (aTask s) + 1) \<and>
              (\<exists>ps. pmas (task_file (aTask s1)) = pmas (task_file (aTask s)) @ [ps] \<and>
                    mset ps = mset (pList (list s)))"
    by auto
  note c = bFlush_required [OF assms, of env]
  have 1: "aTask s' = aTask s \<and> bUsePMA s' = bUsePMA s \<and>
        (mallocOk env \<longrightarrow> rc = SQLITE_OK \<and>
           pList (list s') = (if aMemory (list s) \<and> iMemory s = 0 then [v]
                              else v # pList (list s)))"
    if "\<not> flush_required env s v"
    using that c n a m by simp
  have 2: "bUsePMA s' \<and>
        (flush_env_ok env (aTask s) \<longrightarrow>
           nPMA (aTask s') = int32 (nPMA (aTask s) + 1) \<and>
           (\<exists>ps. pmas (task_file (aTask s')) = pmas (task_file (aTask s)) @ [ps] \<and>
                 mset ps = mset (pList (list s))) \<and>
           (mallocOk env \<longrightarrow> rc = SQLITE_OK \<and> pList (list s') = [v]))"
    if "flush_required env s v"
    using that c y g a m by auto
  from w 1 2 show ?thesis by blast
qed


lemma int32_numeral: "numeral n < (2147483648::int) \<Longrightarrow> int32 (numeral n) = numeral n"
  by (rule int32_id) simp_all

lemma int32_0_1: "int32 0 = 0" "int32 1 = 1"
  by (simp_all add: int32_id)

lemmas int32_1024 = int32_numeral int32_0_1

lemma grow_1024: "grow_nNew 1024 6016 = Some 8192"
  by (simp add: grow_nNew.simps int32_1024)


text \<open>
  C5 as stated fails: on a fresh sorter with bulk memory, a record larger than
  \<open>mxPmaSize\<close> meets the spec's condition, yet nothing is flushed.
\<close>

theorem C5_flush_counterexample:
  "spec_flush_required env_ok (sqlite3VdbeSorterInit cfg0) (int (length big_record) + sizeof_SorterRecord) \<and>
   map_option (\<lambda>r. (fst r, nPMA (aTask (snd r)), pmas (task_file (aTask (snd r))), bUsePMA (snd r),
                     pList (list (snd r))))
     (sqlite3VdbeSorterWrite cmp_len env_ok (sqlite3VdbeSorterInit cfg0) big_record)
   = Some (SQLITE_OK, 0, [], False, [big_record])"
  by (simp add: spec_flush_required_def sqlite3VdbeSorterWrite_def write_flush_def write_append_def
        bFlush_def sqlite3VdbeSorterInit_def cfg0_def env_ok_def big_record_def
        sizeof_SorterRecord_def SORTER_MIN_WORKING_def SQLITE_OK_def Let_def emptyFile_def
        sqlite3VarintLen_def grow_1024 ROUND8_def arena_grow_def arena_store_def int32_1024)

lemma sizes_b: "write_sizes_ok c5_b ''b''" "write_sizes_ok c5_s ''b''" "write_sizes_ok c5_s' ''c''"
  by (simp_all add: write_sizes_ok_def c5_b_def c5_s_def c5_s'_def sizeof_SorterRecord_def)

lemma required_b:
  "flush_required env_ok c5_b ''b''" "flush_required env_open_fails c5_b ''b''"
  "flush_required env_ok c5_s ''b''" "flush_required env_open_fails c5_s ''b''"
  "\<not> flush_required env_ok c5_s' ''c''"
  by (simp_all add: flush_required_def spec_flush_required_def c5_b_def c5_s_def c5_s'_def
        sizeof_SorterRecord_def env_ok_def env_open_fails_def)

lemma env_b:
  "flush_env_ok env_ok (aTask c5_b)" "flush_env_ok env_ok (aTask c5_s)" "mallocOk env_ok"
  "mallocOk env_open_fails" "openRc env_open_fails = SQLITE_IOERR"
  "\<not> pFd (task_file (aTask c5_b))" "\<not> pFd (task_file (aTask c5_s))"
  by (simp_all add: flush_env_ok_def c5_b_def c5_s_def env_ok_def env_open_fails_def emptyFile_def
        SQLITE_OK_def)

lemma fields_b:
  "nPMA (aTask c5_b) = 0" "pmas (task_file (aTask c5_b)) = []" "pList (list c5_b) = [big_record]"
  "aMemory (list c5_b)" "\<not> aMemory (list c5_s)" "pList (list c5_s) = [big_record]"
  "\<not> aMemory (list c5_s')" "pList (list c5_s') = [''b'']"
  by (simp_all add: c5_b_def c5_s_def c5_s'_def emptyFile_def)

theorem C5_flush_condition_witness:
  "write_sizes_ok c5_b ''b'' \<and> flush_required env_ok c5_b ''b'' \<and>
   flush_env_ok env_ok (aTask c5_b) \<and> mallocOk env_ok \<and>
   (\<exists>s'. sqlite3VdbeSorterWrite cmp_len env_ok c5_b ''b'' = Some (SQLITE_OK, s') \<and>
         bUsePMA s' \<and> nPMA (aTask s') = 1 \<and> pmas (task_file (aTask s')) = [[big_record]] \<and>
         pList (list s') = [''b'']) \<and>
   write_sizes_ok c5_s' ''c'' \<and> \<not> flush_required env_ok c5_s' ''c'' \<and>
   (\<exists>s'. sqlite3VdbeSorterWrite cmp_len env_ok c5_s' ''c'' = Some (SQLITE_OK, s') \<and>
         aTask s' = aTask c5_s' \<and> bUsePMA s' = bUsePMA c5_s' \<and> pList (list s') = [''c'', ''b''])"
proof -
  from C5_flush_condition [OF sizes_b(1), of cmp_len env_ok] required_b(1) env_b(1,3)
  obtain rc s' ps where "sqlite3VdbeSorterWrite cmp_len env_ok c5_b ''b'' = Some (rc, s')"
    "bUsePMA s'" "nPMA (aTask s') = int32 (nPMA (aTask c5_b) + 1)"
    "pmas (task_file (aTask s')) = pmas (task_file (aTask c5_b)) @ [ps]"
    "mset ps = mset (pList (list c5_b))" "rc = SQLITE_OK" "pList (list s') = [''b'']"
    by blast
  then have 1: "\<exists>s'. sqlite3VdbeSorterWrite cmp_len env_ok c5_b ''b'' = Some (SQLITE_OK, s') \<and>
         bUsePMA s' \<and> nPMA (aTask s') = 1 \<and> pmas (task_file (aTask s')) = [[big_record]] \<and>
         pList (list s') = [''b'']"
    by (simp add: fields_b int32_0_1)
  from C5_flush_condition [OF sizes_b(3), of cmp_len env_ok] required_b(5) env_b(3)
  obtain rc2 s2 where "sqlite3VdbeSorterWrite cmp_len env_ok c5_s' ''c'' = Some (rc2, s2)"
    "aTask s2 = aTask c5_s'" "bUsePMA s2 = bUsePMA c5_s'" "rc2 = SQLITE_OK"
    "pList (list s2) = (if aMemory (list c5_s') \<and> iMemory c5_s' = 0 then [''c'']
                        else ''c'' # pList (list c5_s'))"
    by blast
  then have 2: "\<exists>s'. sqlite3VdbeSorterWrite cmp_len env_ok c5_s' ''c'' = Some (SQLITE_OK, s') \<and>
         aTask s' = aTask c5_s' \<and> bUsePMA s' = bUsePMA c5_s' \<and> pList (list s') = [''c'', ''b'']"
    by (simp add: fields_b)
  from 1 2 sizes_b required_b env_b show ?thesis by simp
qed


section \<open>The shape of the merge tree\<close>

lemma treeDepth_loop:
  "0 < nDiv \<Longrightarrow> nDiv = 16 ^ (k + 1) \<Longrightarrow> (k = 0 \<or> 16 ^ k < n) \<Longrightarrow>
   (let d = vdbeSorterTreeDepth_loop nDiv n k in
      k \<le> d \<and> n \<le> 16 ^ (d + 1) \<and> (d = 0 \<or> 16 ^ d < n))"
proof (induction nDiv n k rule: vdbeSorterTreeDepth_loop.induct)
  case (1 nDiv n nDepth)
  show ?case
  proof (cases "nDiv < n")
    case True
    with "1.prems" have step: "vdbeSorterTreeDepth_loop nDiv n nDepth =
        vdbeSorterTreeDepth_loop (nDiv * int SORTER_MAX_MERGE_COUNT) n (nDepth + 1)"
      by (subst vdbeSorterTreeDepth_loop.simps) simp
    have "let d = vdbeSorterTreeDepth_loop (nDiv * int SORTER_MAX_MERGE_COUNT) n (nDepth + 1)
          in nDepth + 1 \<le> d \<and> n \<le> 16 ^ (d + 1) \<and> (d = 0 \<or> 16 ^ d < n)"
      using "1.prems" True
      by (intro "1.IH") (auto simp: SORTER_MAX_MERGE_COUNT_def)
    with step show ?thesis by (auto simp: Let_def)
  next
    case False
    with "1.prems" have "vdbeSorterTreeDepth_loop nDiv n nDepth = nDepth"
      by (subst vdbeSorterTreeDepth_loop.simps) simp
    with False "1.prems" show ?thesis by (auto simp: Let_def)
  qed
qed

lemma treeDepth_bounds:
  "n \<le> 16 ^ (vdbeSorterTreeDepth n + 1) \<and> (vdbeSorterTreeDepth n = 0 \<or> 16 ^ vdbeSorterTreeDepth n < n)"
  using treeDepth_loop [of 16 0 n]
  by (simp add: vdbeSorterTreeDepth_def SORTER_MAX_MERGE_COUNT_def Let_def)

lemma treeDepth_pos: "16 < n \<Longrightarrow> 0 < vdbeSorterTreeDepth n"
  using treeDepth_bounds [of n] by (cases "vdbeSorterTreeDepth n = 0") auto

lemma foldr_max_le: "(\<And>x. x \<in> set xs \<Longrightarrow> x \<le> m) \<Longrightarrow> foldr max xs (0::nat) \<le> m"
  by (induction xs) auto

lemma foldr_max_ge: "x \<in> set xs \<Longrightarrow> x \<le> foldr max xs (0::nat)"
  by (induction xs) (auto simp: max_def)

lemma reader_height_eq:
  "reader_height r = (case pIncr r of None \<Rightarrow> 0 | Some i \<Rightarrow> engine_height (pMerger i))"
proof (cases r)
  case (PmaReader k dat inc)
  then show ?thesis
  proof (cases inc)
    case None
    with PmaReader show ?thesis by simp
  next
    case (Some i)
    with PmaReader show ?thesis by (cases i) simp
  qed
qed

lemma height_levels: "levels_exactly d e \<Longrightarrow> engine_height e = Suc d"
proof (induction d arbitrary: e)
  case 0
  obtain n t its where e: "e = MergeEngine n t its" by (cases e)
  with 0 have "\<And>r. r \<in> set its \<Longrightarrow> reader_height r = 0"
    by (auto simp: leaf_engine_def reader_height_eq)
  then have "foldr max (map reader_height its) 0 = 0"
    using foldr_max_le [of "map reader_height its" 0] by auto
  with e show ?case by simp
next
  case (Suc d)
  obtain n t its where e: "e = MergeEngine n t its" by (cases e)
  have h: "reader_height r \<le> Suc d" if "r \<in> set its" for r
  proof (cases r)
    case (PmaReader k dat inc)
    show ?thesis
    proof (cases inc)
      case None
      with PmaReader show ?thesis by simp
    next
      case (Some i)
      with that PmaReader Suc.prems e have "levels_exactly d (pMerger i)" by force
      from Suc.IH [OF this] PmaReader Some show ?thesis by (simp add: reader_height_eq)
    qed
  qed
  from Suc.prems e obtain r where r: "r \<in> set its" "pIncr r \<noteq> None" by auto
  then obtain i where i: "pIncr r = Some i" by auto
  with r Suc.prems e have "levels_exactly d (pMerger i)" by force
  from Suc.IH [OF this] i have "reader_height r = Suc d" by (simp add: reader_height_eq)
  moreover from r have "reader_height r \<in> set (map reader_height its)" by simp
  ultimately have "Suc d \<le> foldr max (map reader_height its) 0"
    using foldr_max_ge [of "reader_height r" "map reader_height its"] by simp
  moreover from h have "foldr max (map reader_height its) 0 \<le> Suc d"
    by (intro foldr_max_le) auto
  ultimately show ?case using e by simp
qed


lemma mergeN_ge: "0 < N \<Longrightarrow> nIter \<le> mergeN N nIter"
proof (induction N nIter rule: mergeN.induct)
  case (1 N nIter)
  then show ?case by (subst mergeN.simps) auto
qed

lemma mergeN_16: "mergeN 2 16 = 16"
  by (simp add: mergeN.simps)

lemma new16: "nTree (vdbeMergeEngineNew SORTER_MAX_MERGE_COUNT) = 16 \<and>
  length (aIter (vdbeMergeEngineNew SORTER_MAX_MERGE_COUNT)) = 16 \<and>
  children_at d (vdbeMergeEngineNew SORTER_MAX_MERGE_COUNT)"
  by (simp add: vdbeMergeEngineNew_def SORTER_MAX_MERGE_COUNT_def mergeN_16 children_at_def
        zeroReader_def)

lemma level0_leaf:
  assumes "vdbeMergeEngineLevel0 rest n = Some (e, rest')"
  shows "leaf_engine e \<and> length rest' = length rest - n"
  using assms
  by (auto simp: vdbeMergeEngineLevel0_def leaf_engine_def level0_reader_def zeroReader_def Let_def
        split: if_splits list.splits)

lemma level0_total:
  "n \<le> length rest \<Longrightarrow> n \<le> SORTER_MAX_MERGE_COUNT \<Longrightarrow> \<exists>e rest'. vdbeMergeEngineLevel0 rest n = Some (e, rest')"
  by (simp add: vdbeMergeEngineLevel0_def Let_def)

lemma levels_children: "levels_exactly (Suc k) e \<Longrightarrow> children_at k e"
  by (simp add: children_at_def)

lemma set_update_cases:
  "r \<in> set (xs[i := x]) \<Longrightarrow> r = x \<or> r \<in> set xs"
  by (metis in_set_conv_nth length_list_update nth_list_update_eq nth_list_update_neq)

lemma addToTree_levels:
  "children_at k p \<Longrightarrow> leaf_engine leaf \<Longrightarrow>
   levels_exactly (Suc k) (addToTree_loop sz k nDiv iSeq (vdbeIncrNew sz leaf) p) \<and>
   nTree (addToTree_loop sz k nDiv iSeq (vdbeIncrNew sz leaf) p) = nTree p"
proof (induction k arbitrary: p nDiv)
  case 0
  let ?j = "iSeq mod SORTER_MAX_MERGE_COUNT"
  let ?x = "set_pIncr (aIter p ! ?j) (Some (vdbeIncrNew sz leaf))"
  from 0 have len: "length (aIter p) = SORTER_MAX_MERGE_COUNT" by (simp add: children_at_def)
  then have j: "?j < length (aIter p)" by (simp add: SORTER_MAX_MERGE_COUNT_def)
  have all: "case pIncr r of None \<Rightarrow> True | Some inc \<Rightarrow> levels_exactly 0 (pMerger inc)"
    if "r \<in> set ((aIter p)[?j := ?x])" for r
  proof -
    from set_update_cases [OF that] show ?thesis
    proof
      assume "r = ?x"
      with 0 show ?thesis by (simp add: set_pIncr_def vdbeIncrNew_def)
    next
      assume "r \<in> set (aIter p)"
      with 0 show ?thesis by (auto simp: children_at_def split: option.splits)
    qed
  qed
  have ex: "?x \<in> set ((aIter p)[?j := ?x])" using j by (simp add: set_update_memI)
  have "pIncr ?x \<noteq> None" by (simp add: set_pIncr_def)
  with ex all len show ?case
    unfolding levels_exactly.simps addToTree_loop.simps by (auto simp: set_aIter_def)
next
  case (Suc k)
  let ?j = "(iSeq div nDiv) mod SORTER_MAX_MERGE_COUNT"
  let ?pIter = "aIter p ! ?j"
  let ?inc = "case pIncr ?pIter of None \<Rightarrow> vdbeIncrNew sz (vdbeMergeEngineNew SORTER_MAX_MERGE_COUNT) | Some i \<Rightarrow> i"
  let ?child = "addToTree_loop sz k (nDiv div SORTER_MAX_MERGE_COUNT) iSeq (vdbeIncrNew sz leaf) (pMerger ?inc)"
  let ?x = "set_pIncr ?pIter (Some (set_pMerger ?inc ?child))"
  from Suc.prems have len: "length (aIter p) = SORTER_MAX_MERGE_COUNT" by (simp add: children_at_def)
  then have j: "?j < length (aIter p)" by (simp add: SORTER_MAX_MERGE_COUNT_def)
  have c: "children_at k (pMerger ?inc)"
  proof (cases "pIncr ?pIter")
    case None
    then show ?thesis using new16 [of k] by (simp add: vdbeIncrNew_def)
  next
    case (Some i)
    from j have "?pIter \<in> set (aIter p)" by simp
    with Suc.prems(1) Some have "levels_exactly (Suc k) (pMerger i)"
      by (auto simp: children_at_def split: option.splits)
    with Some show ?thesis by (simp add: children_at_def)
  qed
  from Suc.IH [OF c Suc.prems(2)] have ch: "levels_exactly (Suc k) ?child" by simp
  have all: "case pIncr r of None \<Rightarrow> True | Some inc \<Rightarrow> levels_exactly (Suc k) (pMerger inc)"
    if "r \<in> set ((aIter p)[?j := ?x])" for r
  proof -
    from set_update_cases [OF that] show ?thesis
    proof
      assume "r = ?x"
      with ch show ?thesis by (simp add: set_pIncr_def set_pMerger_def)
    next
      assume "r \<in> set (aIter p)"
      with Suc.prems show ?thesis by (auto simp: children_at_def split: option.splits)
    qed
  qed
  have ex: "?x \<in> set ((aIter p)[?j := ?x])" using j by (simp add: set_update_memI)
  have "pIncr ?x \<noteq> None" by (simp add: set_pIncr_def)
  with ex all len show ?case
    unfolding levels_exactly.simps(2) [of "Suc k"] addToTree_loop.simps Let_def
    by (auto simp: set_aIter_def)
qed

lemma build_loop_levels:
  "children_at k pRoot \<Longrightarrow> nDepth = Suc k \<Longrightarrow> n - i \<le> length rest \<Longrightarrow>
   \<exists>r. build_loop sz nDepth n i iSeq rest pRoot = Some r \<and> nTree r = nTree pRoot \<and>
       children_at k r \<and> (i < n \<longrightarrow> levels_exactly nDepth r)"
proof (induction sz nDepth n i iSeq rest pRoot rule: build_loop.induct)
  case (1 sz nDepth n i iSeq rest pRoot)
  show ?case
  proof (cases "i < n")
    case False
    with "1.prems" show ?thesis by (subst build_loop.simps) simp
  next
    case True
    let ?m = "min (n - i) SORTER_MAX_MERGE_COUNT"
    have "?m \<le> length rest" "?m \<le> SORTER_MAX_MERGE_COUNT" using "1.prems"(3) by auto
    from level0_total [OF this]
    obtain pLeaf rest' where l0: "vdbeMergeEngineLevel0 rest ?m = Some (pLeaf, rest')" by blast
    note lf = level0_leaf [OF l0]
    let ?root = "vdbeSorterAddToTree sz nDepth iSeq pRoot pLeaf"
    from addToTree_levels [OF "1.prems"(1) conjunct1 [OF lf]] "1.prems"(2)
    have lv: "levels_exactly nDepth ?root" "nTree ?root = nTree pRoot"
      by (simp_all add: vdbeSorterAddToTree_def)
    then have ch: "children_at k ?root" using "1.prems"(2) by (simp add: children_at_def)
    have len: "n - (i + SORTER_MAX_MERGE_COUNT) \<le> length rest'"
      using lf "1.prems"(3) by auto
    from "1.IH" [OF True l0 refl ch "1.prems"(2) len]
    obtain r where r: "build_loop sz nDepth n (i + SORTER_MAX_MERGE_COUNT) (iSeq + 1) rest' ?root = Some r"
      "nTree r = nTree ?root" "children_at k r"
      "i + SORTER_MAX_MERGE_COUNT < n \<longrightarrow> levels_exactly nDepth r"
      by auto
    have step: "build_loop sz nDepth n i iSeq rest pRoot = Some r"
      using True l0 r(1) by (subst build_loop.simps) simp
    have "levels_exactly nDepth r"
    proof (cases "i + SORTER_MAX_MERGE_COUNT < n")
      case True
      with r show ?thesis by simp
    next
      case False
      then have "build_loop sz nDepth n (i + SORTER_MAX_MERGE_COUNT) (iSeq + 1) rest' ?root = Some ?root"
        by (subst build_loop.simps) simp
      with r(1) lv show ?thesis by simp
    qed
    with step r lv show ?thesis by simp
  qed
qed

text \<open>
  C9: when a sub-task has produced more than 16 PMAs, rewind's \<open>vdbeSorterMergeTreeBuild\<close>
  returns a tree whose root has 16 readers and whose depth, counted in merge engines from
  the root down to the engines that read the PMAs, is \<open>\<lceil>log\<^sub>1\<^sub>6 n\<rceil>\<close>; this is one more than
  \<open>vdbeSorterTreeDepth\<close>, which leaves the last level out.
\<close>

theorem C9_merge_tree_depth:
  assumes "16 < nPMA pTask" and "nat (nPMA pTask) \<le> length (pmas (task_file pTask))"
  shows "\<exists>root. vdbeSorterMergeTreeBuild sz pTask = Some root \<and>
           nTree root = 16 \<and> length (aIter root) = 16 \<and>
           engine_height root = vdbeSorterTreeDepth (nPMA pTask) + 1 \<and>
           int (engine_height root) = \<lceil>log 16 (real_of_int (nPMA pTask))\<rceil>"
proof -
  let ?n = "nat (nPMA pTask)"
  let ?d = "vdbeSorterTreeDepth (nPMA pTask)"
  from treeDepth_pos [OF assms(1)] obtain k where k: "?d = Suc k" by (cases ?d) auto
  from new16 [of k] have c: "children_at k (vdbeMergeEngineNew SORTER_MAX_MERGE_COUNT)" by simp
  from build_loop_levels [OF c k, of ?n 0 "pmas (task_file pTask)" sz 0] assms
  obtain r where r: "build_loop sz ?d ?n 0 0 (pmas (task_file pTask))
       (vdbeMergeEngineNew SORTER_MAX_MERGE_COUNT) = Some r"
     "nTree r = 16" "levels_exactly ?d r"
    using new16 [of k] by auto
  from assms(1) have "16 < ?n" by simp
  with r(1) have b: "vdbeSorterMergeTreeBuild sz pTask = Some r"
    by (simp add: vdbeSorterMergeTreeBuild_def SORTER_MAX_MERGE_COUNT_def Let_def)
  from r(3) k have len: "length (aIter r) = 16" by (simp add: SORTER_MAX_MERGE_COUNT_def)
  from height_levels [OF r(3)] have h: "engine_height r = ?d + 1" by simp
  from treeDepth_bounds [of "nPMA pTask"] k
  have bnd: "(16::int) ^ ?d < nPMA pTask" "nPMA pTask \<le> 16 ^ (?d + 1)" by auto
  have "(16::nat) ^ ?d < ?n" "?n \<le> 16 ^ (?d + 1)"
    using bnd assms(1) by (simp_all add: nat_less_iff le_nat_iff nat_le_iff)
  from ceiling_log_nat_eq_if [OF this] have "\<lceil>log 16 (real ?n)\<rceil> = int ?d + 1" by simp
  moreover have "real ?n = real_of_int (nPMA pTask)" using assms(1) by simp
  ultimately have "int (engine_height r) = \<lceil>log 16 (real_of_int (nPMA pTask))\<rceil>"
    using h by simp
  with b r(2) len h show ?thesis by blast
qed

lemma treeDepth_17: "vdbeSorterTreeDepth 17 = 1"
  by (simp add: vdbeSorterTreeDepth_def vdbeSorterTreeDepth_loop.simps SORTER_MAX_MERGE_COUNT_def)

theorem C9_merge_tree_depth_witness:
  "16 < nPMA (pma_task 17) \<and>
   nat (nPMA (pma_task 17)) \<le> length (pmas (task_file (pma_task 17))) \<and>
   map_option nTree (vdbeSorterMergeTreeBuild 100 (pma_task 17)) = Some 16 \<and>
   map_option engine_height (vdbeSorterMergeTreeBuild 100 (pma_task 17)) = Some 2 \<and>
   \<lceil>log 16 (17::real)\<rceil> = 2"
proof -
  have h: "16 < nPMA (pma_task 17)"
    "nat (nPMA (pma_task 17)) \<le> length (pmas (task_file (pma_task 17)))"
    by (simp_all add: pma_task_def)
  from C9_merge_tree_depth [OF h, of 100] obtain root where
    r: "vdbeSorterMergeTreeBuild 100 (pma_task 17) = Some root" "nTree root = 16"
      "engine_height root = vdbeSorterTreeDepth (nPMA (pma_task 17)) + 1"
      "int (engine_height root) = \<lceil>log 16 (real_of_int (nPMA (pma_task 17)))\<rceil>"
    by blast
  have n: "nPMA (pma_task 17) = 17" by (simp add: pma_task_def)
  from r(3) have e: "engine_height root = 2" by (simp add: n treeDepth_17)
  with r(4) have "\<lceil>log 16 (17::real)\<rceil> = 2" by (simp add: n)
  with h r e show ?thesis by simp
qed


section \<open>sqlite3VdbeSorterCompare\<close>

lemma sorter_compare_null:
  assumes "vdbeSorterRowkey s = Some k" "sorterUnpacked s = Some r"
    and "any_null (nat (nField (unpack k r))) (aMem (unpack k r)) = Some True"
  shows "sqlite3VdbeSorterCompare unpack rcmp ok kf s v nIgnore res0 =
           Some (SQLITE_OK, -1, s\<lparr>sorterUnpacked := Some (unpack k r)\<rparr>)"
  using assms by (simp add: sqlite3VdbeSorterCompare_def Let_def)

lemma sorter_compare_no_null:
  assumes "vdbeSorterRowkey s = Some k" "sorterUnpacked s = Some r"
    and "any_null (nat (nField (unpack k r))) (aMem (unpack k r)) = Some False"
  shows "sqlite3VdbeSorterCompare unpack rcmp ok kf s v nIgnore res0 =
           Some (SQLITE_OK, rcmp v (unpack k r), s\<lparr>sorterUnpacked := Some (unpack k r)\<rparr>)"
  using assms by (simp add: sqlite3VdbeSorterCompare_def Let_def)

text \<open>
  C7 at a sorter key whose one field is NULL, against the caller's key \<open>a\<close>: the code
  reports \<open>-1\<close>.  That is the value it reports when the caller's key \<open>a\<close> is compared with
  the larger sorter key \<open>b\<close>, and the opposite sign of the value for the smaller sorter key
  \<open>A\<close>: by the function's convention, \<open>-1\<close> says that the sorter key is greater than the
  caller's key, not less.
\<close>

theorem C7_compare_null_result:
  "map_option (\<lambda>r. (fst r, fst (snd r)))
     (sqlite3VdbeSorterCompare toy_unpack toy_rcmp True 1 (sorter_on [CHR 0x00]) ''a'' 0 0)
     = Some (SQLITE_OK, -1) \<and>
   map_option (\<lambda>r. (fst r, fst (snd r)))
     (sqlite3VdbeSorterCompare toy_unpack toy_rcmp True 1 (sorter_on ''b'') ''a'' 0 0)
     = Some (SQLITE_OK, -1) \<and>
   map_option (\<lambda>r. (fst r, fst (snd r)))
     (sqlite3VdbeSorterCompare toy_unpack toy_rcmp True 1 (sorter_on ''A'') ''a'' 0 0)
     = Some (SQLITE_OK, 1)"
  by (simp add: sqlite3VdbeSorterCompare_def vdbeSorterRowkey_def sorter_on_def
        sqlite3VdbeSorterInit_def cfg0_def toy_unpack_def toy_rcmp_def toy_mem_def Let_def
        MEM_Null_def MEM_Int_def SQLITE_OK_def)

section \<open>Properties of sqlite3ExprIsInteger\<close>


















end
